theory Spec2Isabelle
  imports Complex_Main "HOL-Library.List_Lexorder" "HOL-Library.Product_Lexorder"
begin

section \<open>Python strings\<close>

text \<open>
  A Python \<open>str\<close> is a sequence of Unicode code points; \<open>len\<close>, slicing, comparison and
  the \<open>in\<close> test all work on code points. The model is a list of code points, ordered
  lexicographically as Python orders strings.
\<close>

type_synonym pystr = "nat list"

definition asc :: "string \<Rightarrow> pystr" where
  "asc s = map of_char s"

text \<open>
  The interpreter consults the Unicode character database for \<open>str.upper\<close> and for the
  decimal digits that \<open>\d\<close> and \<open>float\<close> accept. Code points below 256 are written out
  below; the database beyond Latin-1 is a parameter of the model: the full upper-case
  mapping of one code point (it may be several code points long) and the value of a
  decimal digit (category Nd).
\<close>

record ucd =
  upper_of :: "nat \<Rightarrow> pystr"
  decimal_of :: "nat \<Rightarrow> nat option"

definition upper_cp :: "ucd \<Rightarrow> nat \<Rightarrow> pystr" where
  "upper_cp U c =
     (if 256 \<le> c then upper_of U c
      else if 97 \<le> c \<and> c \<le> 122 then [c - 32]
      else if c = 181 then [924]
      else if c = 223 then [83, 83]
      else if 224 \<le> c \<and> c \<le> 254 \<and> c \<noteq> 247 then [c - 32]
      else if c = 255 then [376]
      else [c])"

text \<open>\<open>str.upper\<close> maps every code point on its own and concatenates the results.\<close>

definition py_upper :: "ucd \<Rightarrow> pystr \<Rightarrow> pystr" where
  "py_upper U s = concat (map (upper_cp U) s)"

text \<open>\<open>str.isspace\<close> of one code point; \<open>str.strip\<close> and the pattern \<open>\s\<close> use the same set.\<close>

definition py_isspace :: "nat \<Rightarrow> bool" where
  "py_isspace c =
     ((9 \<le> c \<and> c \<le> 13) \<or> (28 \<le> c \<and> c \<le> 32) \<or> c = 133 \<or> c = 160 \<or> c = 5760
      \<or> (8192 \<le> c \<and> c \<le> 8202) \<or> c = 8232 \<or> c = 8233 \<or> c = 8239 \<or> c = 8287
      \<or> c = 12288)"

text \<open>
  The decimal value of a code point that \<open>\d\<close> matches, \<open>None\<close> for any other. No
  white-space code point is a decimal digit.
\<close>

definition py_decimal :: "ucd \<Rightarrow> nat \<Rightarrow> nat option" where
  "py_decimal U c =
     (if py_isspace c then None
      else if 256 \<le> c then decimal_of U c
      else if 48 \<le> c \<and> c \<le> 57 then Some (c - 48)
      else None)"

definition py_isdecimal :: "ucd \<Rightarrow> nat \<Rightarrow> bool" where
  "py_isdecimal U c = (py_decimal U c \<noteq> None)"

definition py_strip :: "pystr \<Rightarrow> pystr" where
  "py_strip s = rev (dropWhile py_isspace (rev (dropWhile py_isspace s)))"

text \<open>\<open>kw in s\<close>: the keyword occurs in \<open>s\<close> as a contiguous run.\<close>

fun starts_with :: "pystr \<Rightarrow> pystr \<Rightarrow> bool" where
  "starts_with [] s = True"
| "starts_with (k # ks) [] = False"
| "starts_with (k # ks) (c # cs) = (k = c \<and> starts_with ks cs)"

fun py_in :: "pystr \<Rightarrow> pystr \<Rightarrow> bool" where
  "py_in kw [] = (kw = [])"
| "py_in kw (c # cs) = (starts_with kw (c # cs) \<or> py_in kw cs)"

text \<open>\<open>' '.join(parts)\<close>\<close>

fun join_space :: "pystr list \<Rightarrow> pystr" where
  "join_space [] = []"
| "join_space [p] = p"
| "join_space (p # q # ps) = p @ [32] @ join_space (q # ps)"

section \<open>Categorisation\<close>

text \<open>
  The dictionary \<open>categories\<close> of \<open>categorize_product\<close>; a Python dictionary iterates
  in insertion order, so the table is the list of its items as written.
\<close>

definition category_table :: "(pystr \<times> pystr list) list" where
  "category_table =
    [
     (asc ''Caf'' @ [233] @ asc '' y Chocolate'',
      [asc ''CAFE'', asc ''CAF'' @ [201], asc ''NESCAFE'', asc ''LUKAFE'',
       asc ''COFFEE'', asc ''COCOA'', asc ''CACAO'', asc ''CHOCOLATE'', asc ''LUKER'',
       asc ''COBERTURA'', asc ''MILO'', asc ''CAPPUCCINO'', asc ''MOKACCINO'']),
     (asc ''L'' @ [225] @ asc ''cteos'',
      [asc ''LECHE'', asc ''QUESO'', asc ''YOGUR'', asc ''YOGURT'',
       asc ''CREMA DE LECHE'', asc ''MANTEQUILLA'', asc ''KUMIS'', asc ''AREQUIPE'',
       asc ''KLIM'', asc ''CONDENSADA'', asc ''MARGARINA'', asc ''MARG.'',
       asc ''LACTEA'', asc ''LECHERA'']),
     (asc ''Bebidas'',
      [asc ''JUGO'', asc ''NECTAR'', asc ''REFRESCO'', asc ''GASEOSA'', asc ''TANG'',
       asc ''CLIGHT'', asc ''BEBIDA'', asc ''WATER'', asc ''AGUA'', asc ''LIMONADA'',
       asc ''NARANJADA'', asc ''TE '', asc ''TEA'', asc ''TISANA'']),
     (asc ''Congelados'',
      [asc ''CONGELAD'', asc ''FROZEN'', asc ''HELADO'', asc ''HIELO'',
       asc ''PAPA FRIT'', asc ''PAPAS A LA'', asc ''NUGGET'', asc ''APANADO'',
       asc ''PRECOCID'']),
     (asc ''Enlatados y Conservas'',
      [asc ''ATUN'', asc ''AT'' @ [218] @ asc ''N'', asc ''SARDINA'', asc ''ENLATAD'',
       asc ''CONSERVA'', asc ''ACEITUNA'', asc ''CEREZA'', asc ''MARASCHINO'',
       asc ''ALCAPARRA'', asc ''PEPINILLO'', asc ''ENCURTIDO'', asc ''CERNIDO'',
       asc ''PULPA'']),
     (asc ''Salsas y Condimentos'',
      [asc ''SALSA'', asc ''MAYONESA'', asc ''MOSTAZA'', asc ''KETCHUP'',
       asc ''VINAGRE'', asc ''CALDO'', asc ''SAZON'', asc ''SAZ'' @ [211] @ asc ''N'',
       asc ''PIMIENTA'', asc ''ESPECIAS'', asc ''ADOBO'', asc ''CURRY'',
       asc ''COMINO'', asc ''BBQ'']),
     (asc ''Aceites y Grasas'',
      [asc ''ACEITE'', asc ''OLIVA'', asc ''GIRASOL'', asc ''VEGETAL'',
       asc ''CANOLA'', asc ''MANTECA'', asc ''GRASA'']),
     (asc ''Panader'' @ [237] @ asc ''a y Reposter'' @ [237] @ asc ''a'',
      [asc ''HARINA'', asc ''H.RICAMASA'', asc ''LEVADURA'', asc ''LEVAPAN'',
       asc ''TORTA'', asc ''PONQUE'', asc ''PREMEZCLA'', asc ''POLVO HORNEAR'',
       asc ''GELATINA'', asc ''GEL SIN SABOR'', asc ''FLAN'', asc ''NATILLA'']),
     (asc ''Dulces y Confiter'' @ [237] @ asc ''a'',
      [asc ''DULCE'', asc ''CARAMELO'', asc ''GALLETA'', asc ''BOCADILLO'',
       asc ''MERMELADA'', asc ''MIEL'', asc ''AZUCAR'',
       asc ''AZ'' @ [218] @ asc ''CAR'', asc ''PANELA'', asc ''GUAYABA'',
       asc ''AREQUIPE'', asc ''MANJAR'', asc ''OBLEAS'', asc ''COCO ARTESANAL'',
       asc ''OREO'', asc ''CHIPS AHOY'', asc ''CLUB SOCIAL'', asc ''FESTIVAL'',
       asc ''NUCITA'']),
     (asc ''Cereales y Granos'',
      [asc ''CEREAL'', asc ''AVENA'', asc ''ZUCARITAS'', asc ''CORN FLAKES'',
       asc ''KELLOGG'', asc ''GRANOLA'', asc ''ARROZ'', asc ''LENTEJA'',
       asc ''FRIJOL'', asc ''GARBANZO'', asc ''CHOCAPIC'', asc ''FITNESS'']),
     (asc ''Carnes y Embutidos'',
      [asc ''CARNE'', asc ''POLLO'', asc ''CERDO'', asc ''RES'', asc ''JAMON'',
       asc ''JAM'' @ [211] @ asc ''N'', asc ''SALCHICHA'', asc ''CHORIZO'',
       asc ''TOCINETA'', asc ''BACON'', asc ''MORTADELA'', asc ''SALAMI'',
       asc ''HAMBURGUESA'']),
     (asc ''Frutas y Verduras'',
      [asc ''FRUTA'', asc ''VERDURA'', asc ''SETA'',
       asc ''CHAMPI'' @ [209] @ asc ''ON'',
       asc ''CHAMPI'' @ [209] @ [211] @ asc ''N'', asc ''HONGO'',
       asc ''PI'' @ [209] @ asc ''A'', asc ''MANGO'', asc ''FRESA'', asc ''MORA'',
       asc ''DURAZNO'', asc ''TOMATE'', asc ''CEBOLLA'', asc ''MAIZ'',
       asc ''MA'' @ [205] @ asc ''Z'', asc ''ARVEJA'']),
     (asc ''Limpieza y Hogar'',
      [asc ''DETERGENTE'', asc ''DET.'', asc ''JABON'',
       asc ''JAB'' @ [211] @ asc ''N'', asc ''LIMPIA'', asc ''LAVALOZA'',
       asc ''DESINFECT'', asc ''CLORO'', asc ''BLANQUEADOR'', asc ''SUAVIZANTE'',
       asc ''GRANDIOSO'', asc ''POPOURRI'', asc ''LAVANDA'', asc ''FASSI'']),
     (asc ''Empaques y Desechables'',
      [asc ''EMPAQUE'', asc ''PAPEL'', asc ''WRAP'', asc ''CONTENEDOR'', asc ''VASO'',
       asc ''PLATO'', asc ''CUCHARA'', asc ''TENEDOR'', asc ''SERVILLETA'',
       asc ''BOLSA'', asc ''ALUMINIO'', asc ''FILM'', asc ''STRETCH'',
       asc ''DESECHABLE''])
    ]"

definition otros :: pystr where
  "otros = asc ''Otros''"

text \<open>The inner loop: does some keyword of the list occur in the upper-cased name?\<close>

fun any_keyword :: "pystr list \<Rightarrow> pystr \<Rightarrow> bool" where
  "any_keyword [] name_upper = False"
| "any_keyword (keyword # keywords) name_upper =
     (if py_in keyword name_upper then True else any_keyword keywords name_upper)"

text \<open>The outer loop, returning at the first category whose inner loop finds a keyword.\<close>

fun categorize_loop :: "(pystr \<times> pystr list) list \<Rightarrow> pystr \<Rightarrow> pystr" where
  "categorize_loop [] name_upper = otros"
| "categorize_loop ((category, keywords) # rest) name_upper =
     (if any_keyword keywords name_upper then category
      else categorize_loop rest name_upper)"

definition categorize_product :: "ucd \<Rightarrow> pystr \<Rightarrow> pystr" where
  "categorize_product U product_name = categorize_loop category_table (py_upper U product_name)"

text \<open>
  The categoriser as the specification words it: the first pair of the table that has a
  keyword occurring in the upper-cased name gives the category, \<open>Otros\<close> when there is
  none.
\<close>

definition categorize_spec :: "ucd \<Rightarrow> pystr \<Rightarrow> pystr" where
  "categorize_spec U product_name =
     (case find (\<lambda>(category, keywords).
                   list_ex (\<lambda>keyword. py_in keyword (py_upper U product_name)) keywords)
                category_table of
        Some (category, keywords) \<Rightarrow> category
      | None \<Rightarrow> otros)"

section \<open>Cell values\<close>

text \<open>
  A spreadsheet cell as the script sees it. \<open>NA\<close> stands for the values \<open>pd.isna\<close>
  accepts (\<open>None\<close>, NaN, NaT). A float is finite (a spreadsheet stores no infinity) and
  carries its \<open>str()\<close> rendering; \<open>PyObj\<close> is any other object (a date, a numpy
  integer), known by its \<open>str()\<close> only. Numbers are kept exact: rounding to binary64
  and its overflow are outside the model.
\<close>

datatype pyval =
    NA
  | PyBool bool
  | PyInt int
  | PyFloat rat pystr
  | PyStr pystr
  | PyObj pystr

fun str_nat :: "nat \<Rightarrow> pystr" where
  "str_nat n = (if n < 10 then [48 + n] else str_nat (n div 10) @ [48 + n mod 10])"

declare str_nat.simps [simp del]

definition str_int :: "int \<Rightarrow> pystr" where
  "str_int i = (if i < 0 then 45 # str_nat (nat (- i)) else str_nat (nat i))"

text \<open>\<open>str(v)\<close>. The script never renders a missing value: it tests \<open>pd.isna\<close> first.\<close>

fun py_str :: "pyval \<Rightarrow> pystr" where
  "py_str NA = asc ''nan''"
| "py_str (PyBool b) = (if b then asc ''True'' else asc ''False'')"
| "py_str (PyInt i) = str_int i"
| "py_str (PyFloat r s) = s"
| "py_str (PyStr s) = s"
| "py_str (PyObj s) = s"

text \<open>\<open>isinstance(value, (int, float))\<close>; \<open>bool\<close> is a subclass of \<open>int\<close>.\<close>

fun is_number :: "pyval \<Rightarrow> bool" where
  "is_number (PyBool b) = True"
| "is_number (PyInt i) = True"
| "is_number (PyFloat r s) = True"
| "is_number v = False"

text \<open>\<open>float(value)\<close> of a number.\<close>

fun float_of :: "pyval \<Rightarrow> rat" where
  "float_of (PyBool b) = (if b then 1 else 0)"
| "float_of (PyInt i) = of_int i"
| "float_of (PyFloat r s) = r"
| "float_of v = 0"

section \<open>Brand from the file name\<close>

fun split_on :: "nat \<Rightarrow> pystr \<Rightarrow> pystr list" where
  "split_on sep [] = [[]]"
| "split_on sep (c # cs) =
     (case split_on sep cs of
        [] \<Rightarrow> [[c]]
      | p # ps \<Rightarrow> if c = sep then [] # p # ps else (c # p) # ps)"

text \<open>
  \<open>Path(filename).name\<close> on a POSIX path: the last component that is neither empty nor a
  single period, the empty string when there is none.
\<close>

definition path_name :: "pystr \<Rightarrow> pystr" where
  "path_name filename =
     (case filter (\<lambda>p. p \<noteq> [] \<and> p \<noteq> [46]) (split_on 47 filename) of
        [] \<Rightarrow> []
      | p # ps \<Rightarrow> last (p # ps))"

text \<open>\<open>s.rfind(c)\<close>, \<open>None\<close> for Python's -1.\<close>

fun rfind :: "nat \<Rightarrow> pystr \<Rightarrow> nat option" where
  "rfind c [] = None"
| "rfind c (x # xs) =
     (case rfind c xs of
        Some i \<Rightarrow> Some (Suc i)
      | None \<Rightarrow> if x = c then Some 0 else None)"

text \<open>\<open>Path(filename).stem\<close>: the name up to its last period, when that period is neither
  the first nor the last character.\<close>

definition path_stem :: "pystr \<Rightarrow> pystr" where
  "path_stem filename =
     (let name = path_name filename in
      case rfind 46 name of
        None \<Rightarrow> name
      | Some i \<Rightarrow> if 0 < i \<and> Suc i < length name then take i name else name)"

text \<open>
  The pattern \<open>\s*\d{2,4}$\<close> tried at the start of \<open>t\<close>: white space, then two to four
  decimal digits, then the end of the string or the single newline that ends it. The
  result is the text after the match.
\<close>

definition year_match :: "ucd \<Rightarrow> pystr \<Rightarrow> pystr option" where
  "year_match U t =
     (let ds = dropWhile py_isspace t;
          n = length (takeWhile (py_isdecimal U) ds);
          rest = dropWhile (py_isdecimal U) ds
      in if 2 \<le> n \<and> n \<le> 4 \<and> (rest = [] \<or> rest = [10]) then Some rest else None)"

text \<open>
  \<open>re.sub(r'\s*\d{2,4}$', '', name)\<close>: the leftmost match is removed; what follows it is
  at most a newline, where the pattern cannot match again.
\<close>

fun sub_year :: "ucd \<Rightarrow> pystr \<Rightarrow> pystr" where
  "sub_year U [] = []"
| "sub_year U (c # cs) =
     (case year_match U (c # cs) of
        Some rest \<Rightarrow> rest
      | None \<Rightarrow> c # sub_year U cs)"

definition extract_brand_from_filename :: "ucd \<Rightarrow> pystr \<Rightarrow> pystr" where
  "extract_brand_from_filename U filename = py_strip (sub_year U (path_stem filename))"

section \<open>Header row\<close>

definition codigo_accent :: pystr where
  "codigo_accent = asc ''C'' @ [211] @ asc ''DIGO''"

definition codigo_plain :: pystr where
  "codigo_plain = asc ''CODIGO''"

text \<open>\<open>' '.join(str(v).upper() for v in row.values if pd.notna(v))\<close>\<close>

definition row_str :: "ucd \<Rightarrow> pyval list \<Rightarrow> pystr" where
  "row_str U row = join_space (map (\<lambda>v. py_upper U (py_str v)) (filter (\<lambda>v. v \<noteq> NA) row))"

definition mentions_codigo :: "pystr \<Rightarrow> bool" where
  "mentions_codigo s = (py_in codigo_accent s \<or> py_in codigo_plain s)"

text \<open>The loop over \<open>df.iterrows()\<close>; the frame read with \<open>header=None\<close> is indexed 0, 1, ...\<close>

fun header_scan :: "ucd \<Rightarrow> nat \<Rightarrow> pyval list list \<Rightarrow> nat" where
  "header_scan U idx [] = 0"
| "header_scan U idx (row # rest) =
     (if mentions_codigo (row_str U row) then idx else header_scan U (Suc idx) rest)"

definition find_header_row :: "ucd \<Rightarrow> pyval list list \<Rightarrow> nat" where
  "find_header_row U df = header_scan U 0 df"

section \<open>Prices\<close>

text \<open>
  \<open>float(cleaned)\<close> on the strings \<open>clean_price\<close> builds, which hold decimal digits and
  periods only: digits with at most one period among them and at least one digit parse,
  anything else raises \<open>ValueError\<close> (\<open>None\<close>).
\<close>

definition digit_value :: "ucd \<Rightarrow> nat \<Rightarrow> nat" where
  "digit_value U c = (case py_decimal U c of Some d \<Rightarrow> d | None \<Rightarrow> 0)"

definition digits_value :: "ucd \<Rightarrow> pystr \<Rightarrow> nat" where
  "digits_value U ds = foldl (\<lambda>a c. 10 * a + digit_value U c) 0 ds"

definition float_of_str :: "ucd \<Rightarrow> pystr \<Rightarrow> rat option" where
  "float_of_str U s =
     (let ip = takeWhile (py_isdecimal U) s;
          rest = dropWhile (py_isdecimal U) s
      in case rest of
           [] \<Rightarrow> if ip = [] then None else Some (of_nat (digits_value U ip))
         | c # fp \<Rightarrow>
             if c = 46 \<and> list_all (py_isdecimal U) fp \<and> (ip \<noteq> [] \<or> fp \<noteq> [])
             then Some (of_nat (digits_value U (ip @ fp)) / 10 ^ length fp)
             else None)"

text \<open>\<open>re.sub(r'[^\d.,]', '', str(value)).replace(',', '.')\<close>\<close>

definition price_chars :: "ucd \<Rightarrow> pystr \<Rightarrow> pystr" where
  "price_chars U s = filter (\<lambda>c. py_isdecimal U c \<or> c = 46 \<or> c = 44) s"

definition commas_to_periods :: "pystr \<Rightarrow> pystr" where
  "commas_to_periods s = map (\<lambda>c. if c = 44 then 46 else c) s"

definition clean_price :: "ucd \<Rightarrow> pyval \<Rightarrow> rat" where
  "clean_price U v =
     (if v = NA then 0
      else if is_number v then float_of v
      else (let cleaned = commas_to_periods (price_chars U (py_str v))
            in case float_of_str U cleaned of
                 Some r \<Rightarrow> r
               | None \<Rightarrow> 0))"

section \<open>Column mapping\<close>

record colmap =
  code_col :: "pystr option"
  name_col :: "pystr option"
  unit_col :: "pystr option"
  price_col :: "pystr option"

definition no_columns :: colmap where
  "no_columns = \<lparr>code_col = None, name_col = None, unit_col = None, price_col = None\<rparr>"

text \<open>
  The first loop over \<open>df.columns\<close>: one \<open>if\<close>/\<open>elif\<close> chain per label, each branch
  assigning its variable, with no \<open>break\<close>.
\<close>

fun assign_columns :: "ucd \<Rightarrow> pystr list \<Rightarrow> colmap \<Rightarrow> colmap" where
  "assign_columns U [] m = m"
| "assign_columns U (col # cols) m =
     (let col_upper = py_upper U col in
      assign_columns U cols
        (if py_in codigo_accent col_upper \<or> py_in codigo_plain col_upper
           then m\<lparr>code_col := Some col\<rparr>
         else if py_in (asc ''PRODUCTO'') col_upper \<or> py_in (asc ''NOMBRE'') col_upper
           then m\<lparr>name_col := Some col\<rparr>
         else if py_in (asc ''UNIDAD'') col_upper
           then m\<lparr>unit_col := Some col\<rparr>
         else if py_in (asc ''FINAL'') col_upper \<or> py_in (asc ''P. FINAL'') col_upper
           then m\<lparr>price_col := Some col\<rparr>
         else m))"

text \<open>The second loop, which leaves at the first label that contains \<open>PRECIO\<close>.\<close>

fun first_precio :: "ucd \<Rightarrow> pystr list \<Rightarrow> pystr option" where
  "first_precio U [] = None"
| "first_precio U (col # cols) =
     (if py_in (asc ''PRECIO'') (py_upper U col) then Some col else first_precio U cols)"

definition map_columns :: "ucd \<Rightarrow> pystr list \<Rightarrow> colmap" where
  "map_columns U cols =
     (let m = assign_columns U cols no_columns in
      if price_col m = None then m\<lparr>price_col := first_precio U cols\<rparr> else m)"

text \<open>Truth value of a variable that holds \<open>None\<close> or a string.\<close>

fun truthy :: "pystr option \<Rightarrow> bool" where
  "truthy None = False"
| "truthy (Some s) = (s \<noteq> [])"

text \<open>
  The branch of the \<open>if\<close>/\<open>elif\<close> chain of the first loop that a label takes: the role
  the chain gives the label, if any.
\<close>

datatype role = CodeRole | NameRole | UnitRole | PriceRole | NoRole

definition column_role :: "ucd \<Rightarrow> pystr \<Rightarrow> role" where
  "column_role U col =
     (let col_upper = py_upper U col in
      if py_in codigo_accent col_upper \<or> py_in codigo_plain col_upper then CodeRole
      else if py_in (asc ''PRODUCTO'') col_upper \<or> py_in (asc ''NOMBRE'') col_upper then NameRole
      else if py_in (asc ''UNIDAD'') col_upper then UnitRole
      else if py_in (asc ''FINAL'') col_upper \<or> py_in (asc ''P. FINAL'') col_upper then PriceRole
      else NoRole)"

text \<open>The test of the second loop.\<close>

definition has_precio :: "ucd \<Rightarrow> pystr \<Rightarrow> bool" where
  "has_precio U col = py_in (asc ''PRECIO'') (py_upper U col)"

section \<open>Rows\<close>

text \<open>
  \<open>row.get(col)\<close> on a row of the frame: the cell under the label; when the label names
  several columns the result is a \<open>Series\<close>, not a cell; \<open>None\<close> when no column has the
  label, as for the key \<open>None\<close>.
\<close>

datatype got = Scalar pyval | Series

fun row_get :: "pystr list \<Rightarrow> pyval list \<Rightarrow> pystr option \<Rightarrow> got" where
  "row_get cols row None = Scalar NA"
| "row_get cols row (Some col) =
     (case filter (\<lambda>(label, v). label = col) (zip cols row) of
        [] \<Rightarrow> Scalar NA
      | [(label, v)] \<Rightarrow> Scalar v
      | _ \<Rightarrow> Series)"

text \<open>Testing the truth of a \<open>Series\<close> raises \<open>ValueError\<close>, which the script never catches.\<close>

datatype error = ValueError

text \<open>The dictionary \<open>product\<close> as \<open>process_excel_file\<close> builds it.\<close>

record item =
  code :: pystr
  name :: pystr
  unit :: pystr
  price :: rat
  brand :: pystr

text \<open>\<open>str(row.get(unit_col, '')).strip() if unit_col and pd.notna(row.get(unit_col)) else ''\<close>\<close>

definition unit_of :: "pystr list \<Rightarrow> pyval list \<Rightarrow> pystr option \<Rightarrow> error + pystr" where
  "unit_of cols row ucol =
     (if truthy ucol
      then (case row_get cols row ucol of
              Series \<Rightarrow> Inl ValueError
            | Scalar v \<Rightarrow> if v = NA then Inr [] else Inr (py_strip (py_str v)))
      else Inr [])"

text \<open>\<open>clean_price(row.get(price_col)) if price_col else 0.0\<close>\<close>

definition price_of :: "ucd \<Rightarrow> pystr list \<Rightarrow> pyval list \<Rightarrow> pystr option \<Rightarrow> error + rat" where
  "price_of U cols row pcol =
     (if truthy pcol
      then (case row_get cols row pcol of
              Series \<Rightarrow> Inl ValueError
            | Scalar v \<Rightarrow> Inr (clean_price U v))
      else Inr 0)"

text \<open>
  The body of the loop over \<open>df.iterrows()\<close> for one row: \<open>Inr None\<close> when the row is
  skipped, \<open>Inr (Some p)\<close> when \<open>p\<close> is appended.
\<close>

definition process_row ::
  "ucd \<Rightarrow> pystr list \<Rightarrow> colmap \<Rightarrow> pystr \<Rightarrow> pyval list \<Rightarrow> error + item option" where
  "process_row U cols m b row =
     (case row_get cols row (code_col m) of
        Series \<Rightarrow> Inl ValueError
      | Scalar c \<Rightarrow>
          if c = NA then Inr None
          else (case row_get cols row (name_col m) of
            Series \<Rightarrow> Inl ValueError
          | Scalar n \<Rightarrow>
              if n = NA then Inr None
              else if py_strip (py_str c) = [] \<or> py_strip (py_str n) = [] then Inr None
              else if py_upper U (py_str c) \<in> set [codigo_accent, codigo_plain] then Inr None
              else (case unit_of cols row (unit_col m) of
                Inl e \<Rightarrow> Inl e
              | Inr u \<Rightarrow>
                  (case price_of U cols row (price_col m) of
                     Inl e \<Rightarrow> Inl e
                   | Inr pr \<Rightarrow>
                       (let product = \<lparr>code = py_strip (py_str c), name = py_strip (py_str n),
                                        unit = u, price = pr, brand = b\<rparr>
                        in if name product \<noteq> [] \<and> 2 < length (name product)
                           then Inr (Some product) else Inr None)))))"

fun rows_loop ::
  "ucd \<Rightarrow> pystr list \<Rightarrow> colmap \<Rightarrow> pystr \<Rightarrow> pyval list list \<Rightarrow> item list \<Rightarrow> error + item list"
where
  "rows_loop U cols m b [] products = Inr products"
| "rows_loop U cols m b (row # rows) products =
     (case process_row U cols m b row of
        Inl e \<Rightarrow> Inl e
      | Inr None \<Rightarrow> rows_loop U cols m b rows products
      | Inr (Some p) \<Rightarrow> rows_loop U cols m b rows (products @ [p]))"

section \<open>Files\<close>

text \<open>
  A frame read with a header row: \<open>str(col)\<close> of each column label, and the rows beneath
  the header, one cell per column.
\<close>

record frame =
  columns :: "pystr list"
  rows :: "pyval list list"

text \<open>
  A portfolio file as \<open>pd.read_excel\<close> shows it: its name, the rows read with
  \<open>header=None\<close>, and the frame read with a given header row. \<open>None\<close> is a read that
  raises.
\<close>

record portfolio_file =
  file_name :: pystr
  read_raw :: "pyval list list option"
  read_header :: "nat \<Rightarrow> frame option"

definition process_excel_file :: "ucd \<Rightarrow> portfolio_file \<Rightarrow> error + item list" where
  "process_excel_file U filepath =
     (case read_raw filepath of
        None \<Rightarrow> Inr []
      | Some df_raw \<Rightarrow>
          (let header_row = find_header_row U df_raw in
           case read_header filepath header_row of
             None \<Rightarrow> Inr []
           | Some df \<Rightarrow>
               (let cols = map (\<lambda>col. py_upper U (py_strip col)) (columns df);
                    m = map_columns U cols
                in if \<not> (truthy (code_col m) \<and> truthy (name_col m)) then Inr []
                   else rows_loop U cols m (extract_brand_from_filename U (file_name filepath))
                          (rows df) [])))"

section \<open>The catalog\<close>

record product = item +
  category :: pystr

record catalog =
  products :: "product list"
  brands :: "pystr list"
  categories :: "pystr list"
  total_products :: nat

text \<open>\<open>p['category'] = categorize_product(p['name'])\<close>\<close>

definition with_category :: "ucd \<Rightarrow> item \<Rightarrow> product" where
  "with_category U p = item.extend p (product.fields (categorize_product U (name p)))"

text \<open>
  The loop over the files, in the order \<open>sorted(excel_files)\<close> gives them, threading
  \<open>all_products\<close> and the set \<open>brands\<close>.
\<close>

fun files_loop ::
  "ucd \<Rightarrow> portfolio_file list \<Rightarrow> product list \<Rightarrow> pystr set \<Rightarrow> error + product list \<times> pystr set"
where
  "files_loop U [] all_products bs = Inr (all_products, bs)"
| "files_loop U (filepath # files) all_products bs =
     (case process_excel_file U filepath of
        Inl e \<Rightarrow> Inl e
      | Inr ps \<Rightarrow>
          (let ps' = map (with_category U) ps
           in files_loop U files (all_products @ ps') (bs \<union> set (map brand ps'))))"

definition main :: "ucd \<Rightarrow> portfolio_file list \<Rightarrow> error + catalog" where
  "main U excel_files =
     (case files_loop U excel_files [] {} of
        Inl e \<Rightarrow> Inl e
      | Inr (all_products, bs) \<Rightarrow>
          (let sorted_products = sort_key (\<lambda>x. (brand x, name x)) all_products
           in Inr \<lparr>products = sorted_products,
                   brands = sorted_list_of_set bs,
                   categories = sorted_list_of_set (set (map category sorted_products)),
                   total_products = length sorted_products\<rparr>))"

section \<open>Stems with a year suffix\<close>

text \<open>
  The year-suffix convention as the specification words it: the stem ends in white space
  followed by two to four decimal digits.
\<close>

definition year_suffix_convention :: "ucd \<Rightarrow> pystr \<Rightarrow> bool" where
  "year_suffix_convention U stem =
     (let n = length (takeWhile (py_isdecimal U) (rev stem))
      in 2 \<le> n \<and> n \<le> 4 \<and>
         (case dropWhile (py_isdecimal U) (rev stem) of
            [] \<Rightarrow> False
          | c # cs \<Rightarrow> py_isspace c))"

text \<open>
  The stems on which the pattern of \<open>extract_brand_from_filename\<close> finds a match: the last
  two characters, a final newline apart, are decimal digits.
\<close>

fun two_decimals :: "ucd \<Rightarrow> pystr \<Rightarrow> bool" where
  "two_decimals U (a # b # cs) = (py_isdecimal U a \<and> py_isdecimal U b)"
| "two_decimals U cs = False"

definition ends_in_digits :: "ucd \<Rightarrow> pystr \<Rightarrow> bool" where
  "ends_in_digits U stem =
     (case rev stem of
        [] \<Rightarrow> False
      | c # cs \<Rightarrow> if c = 10 then two_decimals U cs else two_decimals U (c # cs))"

section \<open>A concrete character database\<close>

text \<open>
  The database in which no code point beyond Latin-1 has an upper-case mapping or is a
  decimal digit; the examples below, whose strings stay within Latin-1, are evaluated
  with it.
\<close>

definition latin1_only :: ucd where
  "latin1_only = \<lparr>upper_of = (\<lambda>c. [c]), decimal_of = (\<lambda>c. None)\<rparr>"

section \<open>Sample files\<close>

text \<open>
  Two sample files. The first is the end-to-end example of the specification: a title
  row, an empty row, the header at index 2 and one data row. The second has its header at
  index 0, a negative price, a repeated header row whose code cell starts with a space, a
  two-letter name and a row without code.
\<close>

definition lacteos :: pystr where
  "lacteos = asc ''L'' @ [225] @ asc ''cteos''"

definition lecheria :: portfolio_file where
  "lecheria =
     \<lparr>file_name = asc ''LECHERIA 26.xlsx'',
      read_raw = Some
        [[PyStr (asc ''LISTA DE PRECIOS''), NA, NA, NA],
         [NA, NA, NA, NA],
         [PyStr (codigo_accent), PyStr (asc ''PRODUCTO''),
          PyStr (asc ''UNIDAD''), PyStr (asc ''P. FINAL'')],
         [PyStr (asc ''001''), PyStr (asc ''LECHE ENTERA''), PyStr (asc ''LT''), PyInt 4500]],
      read_header = (\<lambda>h. if h = 2
        then Some \<lparr>columns = [codigo_accent, asc ''PRODUCTO'',
                               asc ''UNIDAD'', asc ''P. FINAL''],
                    rows = [[PyStr (asc ''001''), PyStr (asc ''LECHE ENTERA''),
                             PyStr (asc ''LT''), PyInt 4500]]\<rparr>
        else None)\<rparr>"

definition alpina_rows :: "pyval list list" where
  "alpina_rows =
     [[PyInt 7, PyStr (asc ''Yogurt fresa''), PyInt (- 1200)],
      [PyStr (asc '' CODIGO''), PyStr (asc ''NOMBRE''), PyStr (asc ''PRECIO'')],
      [PyInt 8, PyStr (asc ''AB''), PyInt 100],
      [NA, PyStr (asc ''Queso''), PyInt 5]]"

definition alpina :: portfolio_file where
  "alpina =
     \<lparr>file_name = asc ''ALPINA 2025.xlsx'',
      read_raw = Some ([PyStr (asc ''Codigo''), PyStr (asc ''Nombre''), PyStr (asc ''Precio'')]
                       # alpina_rows),
      read_header = (\<lambda>h. if h = 0
        then Some \<lparr>columns = [asc ''Codigo'', asc ''Nombre'', asc ''Precio''],
                    rows = alpina_rows\<rparr>
        else None)\<rparr>"



text \<open>The catalog of the two sample files.\<close>

definition sample_catalog :: catalog where
  "sample_catalog =
     \<lparr>products =
        [\<lparr>code = asc ''CODIGO'', name = asc ''NOMBRE'', unit = [], price = 0,
           brand = asc ''ALPINA'', category = asc ''Otros''\<rparr>,
         \<lparr>code = asc ''7'', name = asc ''Yogurt fresa'', unit = [], price = - 1200,
           brand = asc ''ALPINA'', category = lacteos\<rparr>,
         \<lparr>code = asc ''001'', name = asc ''LECHE ENTERA'', unit = asc ''LT'', price = 4500,
           brand = asc ''LECHERIA'', category = lacteos\<rparr>],
      brands = [asc ''ALPINA'', asc ''LECHERIA''],
      categories = [lacteos, asc ''Otros''],
      total_products = 3\<rparr>"

section \<open>Substrings and upper-casing\<close>

lemma starts_with_iff: "starts_with kw s \<longleftrightarrow> (\<exists>suf. s = kw @ suf)"
  by (induction kw s rule: starts_with.induct) auto

lemma py_in_iff: "py_in kw s \<longleftrightarrow> (\<exists>pre suf. s = pre @ kw @ suf)"
proof (induction s)
  case Nil
  then show ?case by simp
next
  case (Cons c cs)
  show ?case
  proof
    assume "py_in kw (c # cs)"
    then consider "starts_with kw (c # cs)" | "py_in kw cs" by auto
    then show "\<exists>pre suf. c # cs = pre @ kw @ suf"
    proof cases
      case 1
      then obtain suf where "c # cs = kw @ suf" by (auto simp: starts_with_iff)
      then have "c # cs = [] @ kw @ suf" by simp
      then show ?thesis by blast
    next
      case 2
      then obtain pre suf where "cs = pre @ kw @ suf" using Cons.IH by blast
      then have "c # cs = (c # pre) @ kw @ suf" by simp
      then show ?thesis by blast
    qed
  next
    assume "\<exists>pre suf. c # cs = pre @ kw @ suf"
    then obtain pre suf where eq: "c # cs = pre @ kw @ suf" by blast
    show "py_in kw (c # cs)"
    proof (cases pre)
      case Nil
      with eq have "starts_with kw (c # cs)" by (auto simp: starts_with_iff)
      then show ?thesis by simp
    next
      case (Cons p pre')
      with eq have "cs = pre' @ kw @ suf" by simp
      then have "py_in kw cs" using Cons.IH by blast
      then show ?thesis by simp
    qed
  qed
qed

lemma py_upper_append: "py_upper U (a @ b) = py_upper U a @ py_upper U b"
  by (simp add: py_upper_def)

lemma py_in_upper: "py_in kw s \<Longrightarrow> py_in (py_upper U kw) (py_upper U s)"
  unfolding py_in_iff by (metis py_upper_append)

section \<open>The categoriser returns the first matching category\<close>

lemma any_keyword_iff: "any_keyword kws s \<longleftrightarrow> list_ex (\<lambda>k. py_in k s) kws"
  by (induction kws) auto

lemma categorize_loop_find:
  "categorize_loop tbl s =
     (case find (\<lambda>(c, kws). list_ex (\<lambda>k. py_in k s) kws) tbl of
        Some (c, kws) \<Rightarrow> c | None \<Rightarrow> otros)"
  by (induction tbl s rule: categorize_loop.induct) (auto simp: any_keyword_iff)

lemma upper_CAFE: "py_upper U (asc ''CAFE'') = asc ''CAFE''"
  by (simp add: py_upper_def upper_cp_def asc_def)

text \<open>
  Claim C2. The category is a function of the product name alone: the name is
  upper-cased, the table is walked in its fixed order, and the result is the first
  category with a keyword that occurs in the upper-cased name, \<open>Otros\<close> when no keyword
  occurs. A name that contains both \<open>CAFE\<close> and \<open>CHOCOLATE\<close> falls in the first
  category of the table, never in a later one.
\<close>

theorem categorize_product_first_match:
  "categorize_product U product_name = categorize_spec U product_name \<and>
   (py_in (asc ''CAFE'') product_name \<and> py_in (asc ''CHOCOLATE'') product_name \<longrightarrow>
      categorize_product U product_name = asc ''Caf'' @ [233] @ asc '' y Chocolate'')"
proof
  show "categorize_product U product_name = categorize_spec U product_name"
    by (simp add: categorize_product_def categorize_spec_def categorize_loop_find)
next
  show "py_in (asc ''CAFE'') product_name \<and> py_in (asc ''CHOCOLATE'') product_name \<longrightarrow>
      categorize_product U product_name = asc ''Caf'' @ [233] @ asc '' y Chocolate''"
  proof
    assume h: "py_in (asc ''CAFE'') product_name \<and> py_in (asc ''CHOCOLATE'') product_name"
    then have "py_in (asc ''CAFE'') (py_upper U product_name)"
      using py_in_upper [of "asc ''CAFE''" product_name U] by (simp add: upper_CAFE)
    then show "categorize_product U product_name = asc ''Caf'' @ [233] @ asc '' y Chocolate''"
      by (simp add: categorize_product_def category_table_def)
  qed
qed

theorem categorize_product_first_match_witness:
  "py_in (asc ''CAFE'') (asc ''CHOCOLATE CAFE'') \<and> py_in (asc ''CHOCOLATE'') (asc ''CHOCOLATE CAFE'') \<and>
   categorize_product latin1_only (asc ''CHOCOLATE CAFE'') = asc ''Caf'' @ [233] @ asc '' y Chocolate'' \<and>
   categorize_spec latin1_only (asc ''CHOCOLATE CAFE'') = asc ''Caf'' @ [233] @ asc '' y Chocolate''"
  using categorize_product_first_match [of latin1_only "asc ''CHOCOLATE CAFE''"]
  by (auto simp: asc_def)

section \<open>Header row detection\<close>

lemma header_scan_none:
  "\<forall>row \<in> set df. \<not> mentions_codigo (row_str U row) \<Longrightarrow> header_scan U k df = 0"
  by (induction df arbitrary: k) auto

lemma header_scan_found:
  "i < length df \<Longrightarrow> mentions_codigo (row_str U (df ! i)) \<Longrightarrow>
   \<forall>j<i. \<not> mentions_codigo (row_str U (df ! j)) \<Longrightarrow> header_scan U k df = k + i"
proof (induction df arbitrary: k i)
  case Nil
  then show ?case by simp
next
  case (Cons row rest)
  show ?case
  proof (cases i)
    case 0
    with Cons.prems show ?thesis by simp
  next
    case (Suc i')
    with Cons.prems have first: "\<not> mentions_codigo (row_str U row)" by auto
    have "\<forall>j<i'. \<not> mentions_codigo (row_str U (rest ! j))"
      using Cons.prems(3) Suc by auto
    then have "header_scan U (Suc k) rest = Suc k + i'"
      using Cons.IH [of i' "Suc k"] Cons.prems Suc by simp
    with first Suc show ?thesis by simp
  qed
qed

text \<open>
  Claim C6. The rows are scanned from the top; each row is turned into the upper-cased,
  space-joined string of its cells that are not missing, and the index of the first row
  whose string mentions the accented or the plain code label is returned. When no row
  mentions it the result is row 0.
\<close>

theorem find_header_row_first_match:
  "((\<forall>row \<in> set df. \<not> mentions_codigo (row_str U row)) \<longrightarrow> find_header_row U df = 0) \<and>
   (i < length df \<and> mentions_codigo (row_str U (df ! i)) \<and>
      (\<forall>j<i. \<not> mentions_codigo (row_str U (df ! j))) \<longrightarrow> find_header_row U df = i) \<and>
   row_str U r = join_space (map (\<lambda>v. py_upper U (py_str v)) (filter (\<lambda>v. v \<noteq> NA) r)) \<and>
   mentions_codigo s = (py_in (asc ''C'' @ [211] @ asc ''DIGO'') s \<or> py_in (asc ''CODIGO'') s)"
  using header_scan_none [of df U 0] header_scan_found [of i df U 0]
  by (simp add: find_header_row_def row_str_def mentions_codigo_def codigo_accent_def
      codigo_plain_def)

theorem find_header_row_first_match_witness:
  "(1::nat) < length [[PyStr (asc ''Lista de precios'')], [NA, PyStr (asc ''C'' @ [243] @ asc ''digo''), PyStr (asc ''Producto'')], [PyInt 1, PyStr (asc ''CODIGO'')]] \<and>
   mentions_codigo (row_str latin1_only ([[PyStr (asc ''Lista de precios'')], [NA, PyStr (asc ''C'' @ [243] @ asc ''digo''), PyStr (asc ''Producto'')], [PyInt 1, PyStr (asc ''CODIGO'')]] ! 1)) \<and>
   \<not> mentions_codigo (row_str latin1_only ([[PyStr (asc ''Lista de precios'')], [NA, PyStr (asc ''C'' @ [243] @ asc ''digo''), PyStr (asc ''Producto'')], [PyInt 1, PyStr (asc ''CODIGO'')]] ! 0)) \<and>
   find_header_row latin1_only [[PyStr (asc ''Lista de precios'')], [NA, PyStr (asc ''C'' @ [243] @ asc ''digo''), PyStr (asc ''Producto'')], [PyInt 1, PyStr (asc ''CODIGO'')]] = 1 \<and>
   list_all (\<lambda>row. \<not> mentions_codigo (row_str latin1_only row)) [[PyStr (asc ''Lista''), NA], [PyInt 7]] \<and>
   find_header_row latin1_only [[PyStr (asc ''Lista''), NA], [PyInt 7]] = 0"
proof -
  let ?df = "[[PyStr (asc ''Lista de precios'')], [NA, PyStr (asc ''C'' @ [243] @ asc ''digo''), PyStr (asc ''Producto'')], [PyInt 1, PyStr (asc ''CODIGO'')]]"
  have r0: "\<not> mentions_codigo (row_str latin1_only (?df ! 0))"
    by (simp add: mentions_codigo_def row_str_def py_upper_def upper_cp_def asc_def
        codigo_accent_def codigo_plain_def)
  have r1: "mentions_codigo (row_str latin1_only (?df ! 1))"
    by (simp add: mentions_codigo_def row_str_def py_upper_def upper_cp_def asc_def
        codigo_accent_def codigo_plain_def)
  have none: "\<forall>row \<in> set [[PyStr (asc ''Lista''), NA], [PyInt 7]]. \<not> mentions_codigo (row_str latin1_only row)"
    by (simp add: mentions_codigo_def row_str_def py_upper_def upper_cp_def asc_def
        codigo_accent_def codigo_plain_def str_int_def str_nat.simps)
  have lt: "\<forall>j<(1::nat). \<not> mentions_codigo (row_str latin1_only (?df ! j))"
    using r0 by simp
  show ?thesis
    using find_header_row_first_match [of ?df latin1_only 1] 
      find_header_row_first_match [of "[[PyStr (asc ''Lista''), NA], [PyInt 7]]" latin1_only 0]
      r0 r1 lt none
    by (simp add: list_all_iff)
qed

section \<open>Price normalisation\<close>

lemma price_chars_dollar: "price_chars U (asc ''$ 12.345,67'') = asc ''12.345,67''"
  by (simp add: price_chars_def asc_def py_isdecimal_def py_decimal_def py_isspace_def)

lemma periods_dollar: "commas_to_periods (asc ''12.345,67'') = asc ''12.345.67''"
  by (simp add: commas_to_periods_def asc_def)

lemma float_dollar: "float_of_str U (asc ''12.345.67'') = None"
  by (simp add: float_of_str_def asc_def py_isdecimal_def py_decimal_def py_isspace_def)

lemma float_750: "float_of_str U (asc ''7.50'') = Some (15 / 2)"
  by (simp add: float_of_str_def asc_def py_isdecimal_def py_decimal_def py_isspace_def
      digits_value_def digit_value_def)

lemma price_chars_750: "price_chars U (asc ''7.50'') = asc ''7.50''"
  by (simp add: price_chars_def asc_def py_isdecimal_def py_decimal_def py_isspace_def)

lemma periods_750: "commas_to_periods (asc ''7.50'') = asc ''7.50''"
  by (simp add: commas_to_periods_def asc_def)

text \<open>
  Claim C4. The rules of price normalisation, in order: a missing value gives 0.0; a
  number is cast to a float; any other value is rendered as a string, every character
  that is not a decimal digit, a comma or a period is dropped, commas become periods and
  the result is parsed, 0.0 standing for a failed parse. The number 7500 gives 7500.0,
  a missing or empty cell 0.0, the string 7.50 gives 7.5, and \<open>$ 12.345,67\<close> is cleaned
  to \<open>12.345.67\<close>, which does not parse, and gives 0.0.
\<close>

theorem clean_price_rules:
  "clean_price U NA = 0 \<and>
   (is_number v \<longrightarrow> clean_price U v = float_of v) \<and>
   (v \<noteq> NA \<and> \<not> is_number v \<longrightarrow>
      clean_price U v =
        (case float_of_str U (map (\<lambda>c. if c = 44 then 46 else c)
                 (filter (\<lambda>c. py_isdecimal U c \<or> c = 46 \<or> c = 44) (py_str v))) of
           Some r \<Rightarrow> r | None \<Rightarrow> 0)) \<and>
   clean_price U (PyInt 7500) = 7500 \<and>
   clean_price U (PyStr []) = 0 \<and>
   clean_price U (PyStr (asc ''7.50'')) = 15 / 2 \<and>
   price_chars U (asc ''$ 12.345,67'') = asc ''12.345,67'' \<and>
   commas_to_periods (asc ''12.345,67'') = asc ''12.345.67'' \<and>
   float_of_str U (asc ''12.345.67'') = None \<and>
   clean_price U (PyStr (asc ''$ 12.345,67'')) = 0"
proof (intro conjI)
  show "clean_price U NA = 0"
    by (simp add: clean_price_def)
  show "is_number v \<longrightarrow> clean_price U v = float_of v"
    by (cases v) (simp_all add: clean_price_def)
  show "v \<noteq> NA \<and> \<not> is_number v \<longrightarrow>
      clean_price U v =
        (case float_of_str U (map (\<lambda>c. if c = 44 then 46 else c)
                 (filter (\<lambda>c. py_isdecimal U c \<or> c = 46 \<or> c = 44) (py_str v))) of
           Some r \<Rightarrow> r | None \<Rightarrow> 0)"
    by (simp add: clean_price_def price_chars_def commas_to_periods_def)
  show "clean_price U (PyInt 7500) = 7500"
    by (simp add: clean_price_def)
  show "clean_price U (PyStr []) = 0"
    by (simp add: clean_price_def price_chars_def commas_to_periods_def float_of_str_def)
  show "clean_price U (PyStr (asc ''7.50'')) = 15 / 2"
    by (simp add: clean_price_def price_chars_750 periods_750 float_750)
  show "price_chars U (asc ''$ 12.345,67'') = asc ''12.345,67''"
    by (rule price_chars_dollar)
  show "commas_to_periods (asc ''12.345,67'') = asc ''12.345.67''"
    by (rule periods_dollar)
  show "float_of_str U (asc ''12.345.67'') = None"
    by (rule float_dollar)
  show "clean_price U (PyStr (asc ''$ 12.345,67'')) = 0"
    by (simp add: clean_price_def price_chars_dollar periods_dollar float_dollar)
qed

theorem clean_price_rules_witness:
  "is_number (PyFloat (9 / 2) (asc ''4.5'')) \<and>
   clean_price latin1_only (PyFloat (9 / 2) (asc ''4.5'')) = 9 / 2 \<and>
   PyObj (asc ''1,25 COP'') \<noteq> NA \<and> \<not> is_number (PyObj (asc ''1,25 COP'')) \<and>
   clean_price latin1_only (PyObj (asc ''1,25 COP'')) = 5 / 4"
proof -
  have a: "clean_price latin1_only (PyFloat (9 / 2) (asc ''4.5'')) = 9 / 2"
    using clean_price_rules [of latin1_only "PyFloat (9 / 2) (asc ''4.5'')"] by simp
  have b: "clean_price latin1_only (PyObj (asc ''1,25 COP'')) = 5 / 4"
    using clean_price_rules [of latin1_only "PyObj (asc ''1,25 COP'')"]
    by (simp add: asc_def py_isdecimal_def py_decimal_def py_isspace_def float_of_str_def
        digits_value_def digit_value_def)
  show ?thesis using a b by simp
qed

section \<open>Brand derivation\<close>

lemma two_decimals_iff:
  "two_decimals U t \<longleftrightarrow> (\<exists>a b cs. t = a # b # cs \<and> py_isdecimal U a \<and> py_isdecimal U b)"
  by (cases "(U, t)" rule: two_decimals.cases) auto

lemma ends_in_digits_iff:
  "ends_in_digits U s \<longleftrightarrow>
     (\<exists>pre a b rest. s = pre @ [a, b] @ rest \<and> py_isdecimal U a \<and> py_isdecimal U b \<and>
        (rest = [] \<or> rest = [10]))"
  (is "?L \<longleftrightarrow> ?R")
proof
  assume ?L
  show ?R
  proof (cases "rev s")
    case Nil
    with \<open>?L\<close> show ?thesis by (simp add: ends_in_digits_def)
  next
    case (Cons c cs)
    show ?thesis
    proof (cases "c = 10")
      case True
      with Cons \<open>?L\<close> have "two_decimals U cs" by (simp add: ends_in_digits_def)
      then obtain a b ds where cs: "cs = a # b # ds" "py_isdecimal U a" "py_isdecimal U b"
        by (auto simp: two_decimals_iff)
      have "s = rev (rev s)" by simp
      also have "\<dots> = rev ds @ [b, a] @ [10]" using Cons True cs by simp
      finally show ?thesis using cs by blast
    next
      case False
      with Cons \<open>?L\<close> have "two_decimals U (c # cs)" by (simp add: ends_in_digits_def)
      then obtain b ds where cs: "cs = b # ds" "py_isdecimal U c" "py_isdecimal U b"
        by (auto simp: two_decimals_iff)
      have "s = rev (rev s)" by simp
      also have "\<dots> = rev ds @ [b, c] @ []" using Cons cs by simp
      finally show ?thesis using cs by blast
    qed
  qed
next
  assume ?R
  then obtain pre a b rest where s: "s = pre @ [a, b] @ rest" and d: "py_isdecimal U a" "py_isdecimal U b"
    and r: "rest = [] \<or> rest = [10]" by blast
  have n10: "b \<noteq> 10" using d by (auto simp: py_isdecimal_def py_decimal_def py_isspace_def)
  from r show ?L
  proof
    assume "rest = []"
    with s d n10 show ?thesis by (simp add: ends_in_digits_def)
  next
    assume "rest = [10]"
    with s d show ?thesis by (simp add: ends_in_digits_def)
  qed
qed

lemma ends_in_digits_Cons: "ends_in_digits U cs \<Longrightarrow> ends_in_digits U (c # cs)"
  unfolding ends_in_digits_iff
proof -
  assume "\<exists>pre a b rest. cs = pre @ [a, b] @ rest \<and> py_isdecimal U a \<and> py_isdecimal U b \<and>
        (rest = [] \<or> rest = [10])"
  then obtain pre a b rest where "cs = pre @ [a, b] @ rest" "py_isdecimal U a" "py_isdecimal U b"
    "rest = [] \<or> rest = [10]" by blast
  then have "c # cs = (c # pre) @ [a, b] @ rest \<and> py_isdecimal U a \<and> py_isdecimal U b \<and>
        (rest = [] \<or> rest = [10])" by simp
  then show "\<exists>pre a b rest. c # cs = pre @ [a, b] @ rest \<and> py_isdecimal U a \<and> py_isdecimal U b \<and>
        (rest = [] \<or> rest = [10])" by blast
qed

lemma year_match_ends:
  assumes "year_match U t = Some r"
  shows "ends_in_digits U t"
proof -
  let ?ds = "dropWhile py_isspace t"
  let ?tk = "takeWhile (py_isdecimal U) ?ds"
  from assms have n: "2 \<le> length ?tk" and r: "dropWhile (py_isdecimal U) ?ds = r"
    and rr: "r = [] \<or> r = [10]"
    by (auto simp: year_match_def Let_def split: if_splits)
  have alld: "\<forall>x \<in> set ?tk. py_isdecimal U x" by (auto dest: set_takeWhileD)
  from n obtain xs a b where tk: "?tk = xs @ [a, b]"
  proof -
    from n have "?tk \<noteq> []" by auto
    then obtain ys b where 1: "?tk = ys @ [b]" by (metis rev_exhaust)
    with n have "ys \<noteq> []" by auto
    then obtain xs a where "ys = xs @ [a]" by (metis rev_exhaust)
    with 1 that show ?thesis by simp
  qed
  have "t = takeWhile py_isspace t @ ?ds" by simp
  also have "?ds = ?tk @ r" using r by (metis takeWhile_dropWhile_id)
  finally have "t = (takeWhile py_isspace t @ xs) @ [a, b] @ r" using tk by simp
  moreover have "py_isdecimal U a" "py_isdecimal U b" using alld tk by auto
  ultimately show ?thesis using rr unfolding ends_in_digits_iff by blast
qed

lemma sub_year_no_match: "\<not> ends_in_digits U s \<Longrightarrow> sub_year U s = s"
proof (induction s)
  case Nil
  then show ?case by simp
next
  case (Cons c cs)
  have "year_match U (c # cs) = None"
    using Cons.prems year_match_ends [of U "c # cs"] by (cases "year_match U (c # cs)") auto
  moreover have "\<not> ends_in_digits U cs"
    using Cons.prems ends_in_digits_Cons by blast
  ultimately show ?case using Cons.IH by simp
qed

lemma decimal_not_space: "py_isdecimal U c \<Longrightarrow> \<not> py_isspace c"
  by (auto simp: py_isdecimal_def py_decimal_def)

lemma year_match_here:
  assumes ws: "\<forall>c \<in> set ws. py_isspace c" and ds: "\<forall>c \<in> set ds. py_isdecimal U c"
    and len: "2 \<le> length ds" "length ds \<le> 4" and rest: "rest = [] \<or> rest = [10]"
  shows "year_match U (ws @ ds @ rest) = Some rest"
proof -
  have dne: "ds \<noteq> []" using len by auto
  have hd_ds: "\<not> py_isspace (hd ds)" using ds dne decimal_not_space hd_in_set by blast
  have r0: "\<forall>c \<in> set rest. \<not> py_isdecimal U c"
    using rest by (auto simp: py_isdecimal_def py_decimal_def py_isspace_def)
  have 1: "dropWhile py_isspace (ws @ ds @ rest) = ds @ rest"
    using ws hd_ds dne by (cases ds) (auto simp: dropWhile_append)
  have 2: "takeWhile (py_isdecimal U) (ds @ rest) = ds"
    using ds r0 by (cases rest) (auto simp: takeWhile_append)
  have 3: "dropWhile (py_isdecimal U) (ds @ rest) = rest"
    using ds r0 by (cases rest) (auto simp: dropWhile_append)
  show ?thesis using 1 2 3 len rest by (auto simp: year_match_def Let_def)
qed

lemma year_match_inside:
  assumes ws: "\<forall>c \<in> set ws. py_isspace c" and ds: "\<forall>c \<in> set ds. py_isdecimal U c"
    and len: "2 \<le> length ds" "length ds \<le> 4"
    and pre: "pre \<noteq> []" "\<not> py_isspace (last pre)"
    and dig: "length ds = 4 \<or> ws \<noteq> [] \<or> \<not> py_isdecimal U (last pre)"
  shows "year_match U (pre @ ws @ ds @ rest) = None"
proof -
  define p where "p = dropWhile py_isspace pre"
  define k where "k = takeWhile (py_isdecimal U) (p @ ws @ ds @ rest)"
  define r where "r = dropWhile (py_isdecimal U) (p @ ws @ ds @ rest)"
  have pne: "p \<noteq> []" unfolding p_def using pre by (metis dropWhile_eq_Nil_conv last_in_set)
  have lastp: "last p = last pre" unfolding p_def using pne p_def
    by (metis last_appendR takeWhile_dropWhile_id)
  have 1: "dropWhile py_isspace (pre @ ws @ ds @ rest) = p @ ws @ ds @ rest"
    unfolding p_def using pne p_def by (metis dropWhile_append1 dropWhile_eq_Nil_conv)
  have bad: "3 \<le> length r \<or> 5 \<le> length k"
  proof (cases "\<forall>c \<in> set p. py_isdecimal U c")
    case False
    then have "r = dropWhile (py_isdecimal U) p @ ws @ ds @ rest"
      unfolding r_def by (metis dropWhile_append1)
    moreover have "dropWhile (py_isdecimal U) p \<noteq> []" using False by simp
    ultimately have "1 + length ds \<le> length r"
      by (cases "dropWhile (py_isdecimal U) p") auto
    then show ?thesis using len by auto
  next
    case True
    then have lastd: "py_isdecimal U (last pre)" using pne lastp by (metis last_in_set)
    show ?thesis
    proof (cases "ws = []")
      case wsn: False
      then have hw: "\<not> py_isdecimal U (hd ws)"
        using ws decimal_not_space hd_in_set by blast
      have "r = dropWhile (py_isdecimal U) (ws @ ds @ rest)"
        unfolding r_def using True by (simp add: dropWhile_append)
      also have "\<dots> = ws @ ds @ rest" using wsn hw by (cases ws) auto
      finally have "1 + length ds \<le> length r" using wsn by (cases ws) auto
      then show ?thesis using len by auto
    next
      case wse: True
      with dig lastd have l4: "length ds = 4" by simp
      have "k = p @ takeWhile (py_isdecimal U) (ds @ rest)"
        unfolding k_def using True wse by (simp add: takeWhile_append)
      also have "takeWhile (py_isdecimal U) (ds @ rest) = ds @ takeWhile (py_isdecimal U) rest"
        using ds by (simp add: takeWhile_append)
      finally have "1 + length ds \<le> length k" using pne by (cases p) auto
      then show ?thesis using l4 by auto
    qed
  qed
  have "\<not> (2 \<le> length k \<and> length k \<le> 4 \<and> (r = [] \<or> r = [10]))"
    using bad by auto
  then show ?thesis unfolding year_match_def Let_def 1 k_def r_def by simp
qed

lemma sub_year_match:
  assumes ws: "\<forall>c \<in> set ws. py_isspace c" and ds: "\<forall>c \<in> set ds. py_isdecimal U c"
    and len: "2 \<le> length ds" "length ds \<le> 4" and rest: "rest = [] \<or> rest = [10]"
    and pre: "pre = [] \<or> \<not> py_isspace (last pre)"
    and dig: "length ds = 4 \<or> ws \<noteq> [] \<or> pre = [] \<or> \<not> py_isdecimal U (last pre)"
  shows "sub_year U (pre @ ws @ ds @ rest) = pre @ rest"
  using pre dig
proof (induction pre)
  case Nil
  have ne: "ws @ ds @ rest \<noteq> []" using len by auto
  then obtain c cs where e: "ws @ ds @ rest = c # cs" by (cases "ws @ ds @ rest") auto
  have "year_match U (c # cs) = Some rest"
    using year_match_here [OF ws ds len rest] e by simp
  then have "sub_year U (c # cs) = rest" by simp
  then show ?case using e by simp
next
  case (Cons p pre)
  have l: "last (p # pre) = (if pre = [] then p else last pre)" by simp
  have "year_match U ((p # pre) @ ws @ ds @ rest) = None"
    using year_match_inside [OF ws ds len, of "p # pre" rest] Cons.prems by blast
  then have "sub_year U ((p # pre) @ ws @ ds @ rest) = p # sub_year U (pre @ ws @ ds @ rest)"
    by simp
  moreover have "sub_year U (pre @ ws @ ds @ rest) = pre @ rest"
    using Cons.IH Cons.prems by (cases "pre = []") auto
  ultimately show ?case by simp
qed


lemma py_strip_trailing:
  assumes "\<forall>c \<in> set r. py_isspace c"
  shows "py_strip (p @ r) = py_strip p"
proof (cases "\<forall>c \<in> set p. py_isspace c")
  case True
  then have "\<forall>c \<in> set (p @ r). py_isspace c"
    using assms by auto
  then have a: "dropWhile py_isspace (p @ r) = []"
    using dropWhile_eq_Nil_conv by blast
  have b: "dropWhile py_isspace p = []"
    using True by simp
  show ?thesis unfolding py_strip_def a b by simp
next
  case False
  then have "dropWhile py_isspace (p @ r) = dropWhile py_isspace p @ r"
    by (metis dropWhile_append1)
  moreover have "dropWhile py_isspace (rev r @ xs) = dropWhile py_isspace xs" for xs
    using assms by (simp add: dropWhile_append)
  ultimately show ?thesis by (simp add: py_strip_def)
qed

lemma stem_lacteos:
  "path_stem (asc ''LACTEOS DEL VALLE 2025.xlsx'') = asc ''LACTEOS DEL VALLE 2025''"
  by (simp add: path_stem_def path_name_def asc_def)

lemma stem_alpina: "path_stem (asc ''ALPINA.xls'') = asc ''ALPINA''"
  by (simp add: path_stem_def path_name_def asc_def)

lemma stem_alpina25: "path_stem (asc ''ALPINA25.xls'') = asc ''ALPINA25''"
  by (simp add: path_stem_def path_name_def asc_def)

lemma brand_no_match:
  "\<not> ends_in_digits U (path_stem filename) \<Longrightarrow>
   extract_brand_from_filename U filename = py_strip (path_stem filename)"
  by (simp add: extract_brand_from_filename_def sub_year_no_match)

lemma brand_match:
  assumes "path_stem filename = pre @ ws @ ds @ rest"
    and "\<forall>c \<in> set ws. py_isspace c" and "\<forall>c \<in> set ds. py_isdecimal U c"
    and "2 \<le> length ds" and "length ds \<le> 4" and "rest = [] \<or> rest = [10]"
    and "pre = [] \<or> \<not> py_isspace (last pre)"
    and "length ds = 4 \<or> ws \<noteq> [] \<or> pre = [] \<or> \<not> py_isdecimal U (last pre)"
  shows "extract_brand_from_filename U filename = py_strip pre"
proof -
  have "sub_year U (pre @ ws @ ds @ rest) = pre @ rest"
    using assms sub_year_match [of ws ds U rest pre] by blast
  moreover have "\<forall>c \<in> set rest. py_isspace c"
    using assms(6) by (auto simp: py_isspace_def)
  ultimately show ?thesis
    using assms(1) by (simp add: extract_brand_from_filename_def py_strip_trailing)
qed

lemma isdecimal_latin1:
  "c < 256 \<Longrightarrow> py_isdecimal U c \<longleftrightarrow> 48 \<le> c \<and> c \<le> 57"
  by (auto simp: py_isdecimal_def py_decimal_def py_isspace_def)

lemma brand_lacteos:
  "extract_brand_from_filename U (asc ''LACTEOS DEL VALLE 2025.xlsx'') = asc ''LACTEOS DEL VALLE''"
proof -
  have "path_stem (asc ''LACTEOS DEL VALLE 2025.xlsx'')
          = asc ''LACTEOS DEL VALLE'' @ asc '' '' @ asc ''2025'' @ []"
    by (simp add: stem_lacteos) (simp add: asc_def)
  then have "extract_brand_from_filename U (asc ''LACTEOS DEL VALLE 2025.xlsx'')
          = py_strip (asc ''LACTEOS DEL VALLE'')"
    by (rule brand_match) (simp_all add: asc_def py_isspace_def isdecimal_latin1)
  then show ?thesis by (simp add: py_strip_def asc_def py_isspace_def)
qed

lemma brand_alpina:
  "extract_brand_from_filename U (asc ''ALPINA.xls'') = asc ''ALPINA''"
proof -
  have "\<not> ends_in_digits U (path_stem (asc ''ALPINA.xls''))"
    by (simp add: stem_alpina) (simp add: ends_in_digits_def asc_def isdecimal_latin1)
  then have "extract_brand_from_filename U (asc ''ALPINA.xls'') = py_strip (asc ''ALPINA'')"
    using brand_no_match stem_alpina by metis
  then show ?thesis by (simp add: py_strip_def asc_def py_isspace_def)
qed

lemma brand_alpina25:
  "extract_brand_from_filename U (asc ''ALPINA25.xls'') = asc ''ALPINA''"
proof -
  have "path_stem (asc ''ALPINA25.xls'') = asc ''ALPINA'' @ [] @ asc ''25'' @ []"
    by (simp add: stem_alpina25) (simp add: asc_def)
  then have "extract_brand_from_filename U (asc ''ALPINA25.xls'') = py_strip (asc ''ALPINA'')"
    by (rule brand_match) (simp_all add: asc_def py_isspace_def isdecimal_latin1)
  then show ?thesis by (simp add: py_strip_def asc_def py_isspace_def)
qed

text \<open>
  Claim C7, as stated, fails: the stem \<open>ALPINA25\<close> does not end in white space followed
  by digits, so it does not follow the year-suffix convention, and yet it does not pass
  through unchanged: the brand is \<open>ALPINA\<close>.
\<close>

theorem extract_brand_from_filename_counterexample:
  "\<not> year_suffix_convention latin1_only (path_stem (asc ''ALPINA25.xls'')) \<and>
   extract_brand_from_filename latin1_only (asc ''ALPINA25.xls'') = asc ''ALPINA'' \<and>
   extract_brand_from_filename latin1_only (asc ''ALPINA25.xls'')
     \<noteq> path_stem (asc ''ALPINA25.xls'')"
proof -
  have "\<not> year_suffix_convention latin1_only (asc ''ALPINA25'')"
    by (simp add: year_suffix_convention_def asc_def isdecimal_latin1 py_isspace_def)
  moreover have "asc ''ALPINA'' \<noteq> asc ''ALPINA25''" by (simp add: asc_def)
  ultimately show ?thesis by (simp add: brand_alpina25 stem_alpina25)
qed

text \<open>
  Claim C7, amended. The brand is the stem with its year token removed, then trimmed.
  The token is the last two to four decimal digits of the stem together with the white
  space directly before them, and that white space may be absent; a single final newline
  after the digits is kept. A stem whose last two characters (a final newline apart) are
  not both decimal digits keeps everything but its surrounding white space. The file
  name \<open>LACTEOS DEL VALLE 2025.xlsx\<close> gives \<open>LACTEOS DEL VALLE\<close> and \<open>ALPINA.xls\<close>
  gives \<open>ALPINA\<close>.
\<close>

theorem extract_brand_from_filename_rules:
  "extract_brand_from_filename U (asc ''LACTEOS DEL VALLE 2025.xlsx'') = asc ''LACTEOS DEL VALLE'' \<and>
   extract_brand_from_filename U (asc ''ALPINA.xls'') = asc ''ALPINA'' \<and>
   (\<not> ends_in_digits U (path_stem filename) \<longrightarrow>
      extract_brand_from_filename U filename = py_strip (path_stem filename)) \<and>
   (path_stem filename = pre @ ws @ ds @ rest \<and>
    (\<forall>c \<in> set ws. py_isspace c) \<and> (\<forall>c \<in> set ds. py_isdecimal U c) \<and>
    2 \<le> length ds \<and> length ds \<le> 4 \<and> (rest = [] \<or> rest = [10]) \<and>
    (pre = [] \<or> \<not> py_isspace (last pre)) \<and>
    (length ds = 4 \<or> ws \<noteq> [] \<or> pre = [] \<or> \<not> py_isdecimal U (last pre)) \<longrightarrow>
      extract_brand_from_filename U filename = py_strip pre)"
  using brand_lacteos brand_alpina brand_no_match [of U filename]
    brand_match [of filename pre ws ds rest U]
  by blast

theorem extract_brand_from_filename_rules_witness:
  "\<not> ends_in_digits latin1_only (path_stem (asc ''NESTLE.ods'')) \<and>
   extract_brand_from_filename latin1_only (asc ''NESTLE.ods'') = asc ''NESTLE'' \<and>
   path_stem (asc ''COLANTA 26.xlsx'') = asc ''COLANTA'' @ asc '' '' @ asc ''26'' @ [] \<and>
   list_all py_isspace (asc '' '') \<and>
   list_all (py_isdecimal latin1_only) (asc ''26'') \<and>
   \<not> py_isspace (last (asc ''COLANTA'')) \<and>
   extract_brand_from_filename latin1_only (asc ''COLANTA 26.xlsx'') = asc ''COLANTA''"
proof -
  have s1: "path_stem (asc ''NESTLE.ods'') = asc ''NESTLE''"
    by (simp add: path_stem_def path_name_def asc_def)
  have n1: "\<not> ends_in_digits latin1_only (asc ''NESTLE'')"
    by (simp add: ends_in_digits_def asc_def isdecimal_latin1)
  have t1: "py_strip (asc ''NESTLE'') = asc ''NESTLE''"
    by (simp add: py_strip_def asc_def py_isspace_def)
  have s2: "path_stem (asc ''COLANTA 26.xlsx'') = asc ''COLANTA'' @ asc '' '' @ asc ''26'' @ []"
    by (simp add: path_stem_def path_name_def asc_def)
  have w: "\<forall>c \<in> set (asc '' ''). py_isspace c"
    by (simp add: asc_def py_isspace_def)
  have d: "\<forall>c \<in> set (asc ''26''). py_isdecimal latin1_only c"
    by (simp add: asc_def isdecimal_latin1)
  have l: "\<not> py_isspace (last (asc ''COLANTA''))"
    by (simp add: asc_def py_isspace_def)
  have t2: "py_strip (asc ''COLANTA'') = asc ''COLANTA''"
    by (simp add: py_strip_def asc_def py_isspace_def)
  have len: "length (asc ''26'') = 2" "asc '' '' \<noteq> []" by (simp_all add: asc_def)
  have a: "extract_brand_from_filename latin1_only (asc ''NESTLE.ods'') = asc ''NESTLE''"
    using extract_brand_from_filename_rules [of latin1_only "asc ''NESTLE.ods''"] s1 n1 t1
    by simp
  have b: "extract_brand_from_filename latin1_only (asc ''COLANTA 26.xlsx'') = asc ''COLANTA''"
    using extract_brand_from_filename_rules
      [of latin1_only "asc ''COLANTA 26.xlsx''" "asc ''COLANTA''" "asc '' ''" "asc ''26''" "[]"]
      s2 w d l t2 len
    by simp
  show ?thesis using a b s1 n1 s2 w d l by (simp add: list_all_iff)
qed

section \<open>Column mapping: which label gets which role\<close>

lemma find_snoc:
  "find P (xs @ [x]) = (case find P xs of Some y \<Rightarrow> Some y | None \<Rightarrow> if P x then Some x else None)"
  by (induction xs) auto

lemma assign_columns_step:
  "assign_columns U (col # cols) m =
     assign_columns U cols
       (case column_role U col of
          CodeRole \<Rightarrow> m\<lparr>code_col := Some col\<rparr>
        | NameRole \<Rightarrow> m\<lparr>name_col := Some col\<rparr>
        | UnitRole \<Rightarrow> m\<lparr>unit_col := Some col\<rparr>
        | PriceRole \<Rightarrow> m\<lparr>price_col := Some col\<rparr>
        | NoRole \<Rightarrow> m)"
  by (simp add: column_role_def Let_def)

lemma assign_columns_code:
  "code_col (assign_columns U cols m) =
     (case find (\<lambda>c. column_role U c = CodeRole) (rev cols) of
        Some c \<Rightarrow> Some c | None \<Rightarrow> code_col m)"
proof (induction cols arbitrary: m)
  case Nil
  then show ?case by simp
next
  case (Cons col cols)
  show ?case
    unfolding assign_columns_step Cons.IH
    by (cases "column_role U col") (simp_all add: find_snoc split: option.splits)
qed

lemma assign_columns_name:
  "name_col (assign_columns U cols m) =
     (case find (\<lambda>c. column_role U c = NameRole) (rev cols) of
        Some c \<Rightarrow> Some c | None \<Rightarrow> name_col m)"
proof (induction cols arbitrary: m)
  case Nil
  then show ?case by simp
next
  case (Cons col cols)
  show ?case
    unfolding assign_columns_step Cons.IH
    by (cases "column_role U col") (simp_all add: find_snoc split: option.splits)
qed

lemma assign_columns_unit:
  "unit_col (assign_columns U cols m) =
     (case find (\<lambda>c. column_role U c = UnitRole) (rev cols) of
        Some c \<Rightarrow> Some c | None \<Rightarrow> unit_col m)"
proof (induction cols arbitrary: m)
  case Nil
  then show ?case by simp
next
  case (Cons col cols)
  show ?case
    unfolding assign_columns_step Cons.IH
    by (cases "column_role U col") (simp_all add: find_snoc split: option.splits)
qed

lemma assign_columns_price:
  "price_col (assign_columns U cols m) =
     (case find (\<lambda>c. column_role U c = PriceRole) (rev cols) of
        Some c \<Rightarrow> Some c | None \<Rightarrow> price_col m)"
proof (induction cols arbitrary: m)
  case Nil
  then show ?case by simp
next
  case (Cons col cols)
  show ?case
    unfolding assign_columns_step Cons.IH
    by (cases "column_role U col") (simp_all add: find_snoc split: option.splits)
qed

lemma first_precio_find: "first_precio U cols = find (has_precio U) cols"
  by (induction cols) (auto simp: has_precio_def)

lemma map_columns_code:
  "code_col (map_columns U cols) = find (\<lambda>c. column_role U c = CodeRole) (rev cols)"
  by (simp add: map_columns_def Let_def assign_columns_code no_columns_def split: option.splits)

lemma map_columns_name:
  "name_col (map_columns U cols) = find (\<lambda>c. column_role U c = NameRole) (rev cols)"
  by (simp add: map_columns_def Let_def assign_columns_name no_columns_def split: option.splits)

lemma map_columns_unit:
  "unit_col (map_columns U cols) = find (\<lambda>c. column_role U c = UnitRole) (rev cols)"
  by (simp add: map_columns_def Let_def assign_columns_unit no_columns_def split: option.splits)

lemma map_columns_price:
  "price_col (map_columns U cols) =
     (case find (\<lambda>c. column_role U c = PriceRole) (rev cols) of
        Some c \<Rightarrow> Some c | None \<Rightarrow> find (has_precio U) cols)"
  by (simp add: map_columns_def Let_def assign_columns_price no_columns_def first_precio_find
      split: option.splits)


lemma upper_latin1_caps:
  "\<forall>c \<in> set s. c < 97 \<Longrightarrow> py_upper U s = s"
  by (induction s) (auto simp: py_upper_def upper_cp_def)

lemma role_codigo: "column_role U (asc ''CODIGO'') = CodeRole"
  by (simp add: column_role_def upper_latin1_caps asc_def codigo_plain_def)

lemma role_codigo_barras: "column_role U (asc ''CODIGO DE BARRAS'') = CodeRole"
  by (simp add: column_role_def upper_latin1_caps asc_def codigo_plain_def)

lemma role_producto: "column_role U (asc ''PRODUCTO'') = NameRole"
  by (simp add: column_role_def upper_latin1_caps asc_def codigo_plain_def codigo_accent_def)

lemma role_precio_unidad: "column_role U (asc ''PRECIO UNIDAD'') = UnitRole"
  by (simp add: column_role_def upper_latin1_caps asc_def codigo_plain_def codigo_accent_def)

lemma precio_precio_unidad: "has_precio U (asc ''PRECIO UNIDAD'')"
  by (simp add: has_precio_def upper_latin1_caps asc_def)

lemma precio_codigo: "\<not> has_precio U (asc ''CODIGO'')"
  by (simp add: has_precio_def upper_latin1_caps asc_def)

lemma precio_producto: "\<not> has_precio U (asc ''PRODUCTO'')"
  by (simp add: has_precio_def upper_latin1_caps asc_def)

lemma has_precio_fun: "has_precio U = (\<lambda>c. py_in (asc ''PRECIO'') (py_upper U c))"
  by (rule ext) (simp add: has_precio_def)

text \<open>
  Claim C1, as stated, fails: of two labels that both match the code rule the later one
  is chosen, not the earlier one.
\<close>

theorem map_columns_counterexample:
  "mentions_codigo (py_upper latin1_only (asc ''CODIGO'')) \<and>
   mentions_codigo (py_upper latin1_only (asc ''CODIGO DE BARRAS'')) \<and>
   code_col (map_columns latin1_only [asc ''CODIGO'', asc ''CODIGO DE BARRAS'', asc ''PRODUCTO''])
     = Some (asc ''CODIGO DE BARRAS'') \<and>
   asc ''CODIGO DE BARRAS'' \<noteq> asc ''CODIGO''"
proof -
  have "mentions_codigo (py_upper latin1_only (asc ''CODIGO''))"
    by (simp add: mentions_codigo_def upper_latin1_caps asc_def codigo_plain_def)
  moreover have "mentions_codigo (py_upper latin1_only (asc ''CODIGO DE BARRAS''))"
    by (simp add: mentions_codigo_def upper_latin1_caps asc_def codigo_plain_def)
  moreover have "code_col (map_columns latin1_only
      [asc ''CODIGO'', asc ''CODIGO DE BARRAS'', asc ''PRODUCTO'']) = Some (asc ''CODIGO DE BARRAS'')"
    by (simp add: map_columns_code role_codigo role_codigo_barras role_producto)
  moreover have "asc ''CODIGO DE BARRAS'' \<noteq> asc ''CODIGO''"
    by (simp add: asc_def)
  ultimately show ?thesis by blast
qed

text \<open>
  Claim C1, amended. The first loop gives each of the roles code, name, unit and price to
  the last label, in iteration order, that takes the branch of that role in the chain
  code, name, unit, \<open>FINAL\<close>. Only the fallback, used when no label took the \<open>FINAL\<close>
  branch, chooses the earliest label: the first one that contains \<open>PRECIO\<close>.
\<close>

theorem map_columns_last_match:
  "code_col (map_columns U cols) = find (\<lambda>c. column_role U c = CodeRole) (rev cols) \<and>
   name_col (map_columns U cols) = find (\<lambda>c. column_role U c = NameRole) (rev cols) \<and>
   unit_col (map_columns U cols) = find (\<lambda>c. column_role U c = UnitRole) (rev cols) \<and>
   price_col (map_columns U cols) =
     (case find (\<lambda>c. column_role U c = PriceRole) (rev cols) of
        Some c \<Rightarrow> Some c
      | None \<Rightarrow> find (\<lambda>c. py_in (asc ''PRECIO'') (py_upper U c)) cols)"
  using map_columns_code [of U cols] map_columns_name [of U cols] map_columns_unit [of U cols]
    map_columns_price [of U cols]
  unfolding has_precio_fun by simp

theorem map_columns_last_match_witness:
  "code_col (map_columns latin1_only
      [asc ''CODIGO'', asc ''PRECIO UNIDAD'', asc ''CODIGO DE BARRAS'', asc ''PRODUCTO''])
     = Some (asc ''CODIGO DE BARRAS'') \<and>
   price_col (map_columns latin1_only
      [asc ''CODIGO'', asc ''PRECIO UNIDAD'', asc ''CODIGO DE BARRAS'', asc ''PRODUCTO''])
     = Some (asc ''PRECIO UNIDAD'')"
proof -
  let ?cols = "[asc ''CODIGO'', asc ''PRECIO UNIDAD'', asc ''CODIGO DE BARRAS'', asc ''PRODUCTO'']"
  have a: "find (\<lambda>c. column_role latin1_only c = CodeRole) (rev ?cols) = Some (asc ''CODIGO DE BARRAS'')"
    by (simp add: role_codigo role_codigo_barras role_producto role_precio_unidad)
  have b: "find (\<lambda>c. column_role latin1_only c = PriceRole) (rev ?cols) = None"
    by (simp add: role_codigo role_codigo_barras role_producto role_precio_unidad)
  have c: "find (\<lambda>c. py_in (asc ''PRECIO'') (py_upper latin1_only c)) ?cols = Some (asc ''PRECIO UNIDAD'')"
    by (simp add: upper_latin1_caps asc_def)
  show ?thesis
    using map_columns_last_match [of latin1_only ?cols] a b c by simp
qed

text \<open>
  Claim C10, as stated, fails: the fallback for the price runs after the chain, so one
  label can hold two roles. Here \<open>PRECIO UNIDAD\<close> is both the unit and the price column.
\<close>

theorem column_roles_counterexample:
  "unit_col (map_columns latin1_only [asc ''CODIGO'', asc ''PRODUCTO'', asc ''PRECIO UNIDAD''])
     = Some (asc ''PRECIO UNIDAD'') \<and>
   price_col (map_columns latin1_only [asc ''CODIGO'', asc ''PRODUCTO'', asc ''PRECIO UNIDAD''])
     = Some (asc ''PRECIO UNIDAD'')"
  by (simp add: map_columns_unit map_columns_price role_codigo role_producto
      role_precio_unidad precio_precio_unidad precio_codigo precio_producto)

lemma find_role:
  "find (\<lambda>c. column_role U c = r) xs = Some a \<Longrightarrow> column_role U a = r \<and> a \<in> set xs"
  by (auto simp: find_Some_iff)

lemma no_name_role:
  assumes "\<forall>c \<in> set cols. py_in (asc ''PRODUCTO'') (py_upper U c) \<or> py_in (asc ''NOMBRE'') (py_upper U c)
             \<longrightarrow> mentions_codigo (py_upper U c)"
  shows "name_col (map_columns U cols) = None"
proof -
  have "column_role U c \<noteq> NameRole" if "c \<in> set cols" for c
    using assms that by (auto simp: column_role_def Let_def mentions_codigo_def)
  then show ?thesis
    by (simp add: map_columns_name find_None_iff)
qed

lemma no_name_no_records:
  assumes "read_raw filepath = Some df_raw"
    and "read_header filepath (find_header_row U df_raw) = Some df"
    and "name_col (map_columns U (map (\<lambda>col. py_upper U (py_strip col)) (columns df))) = None"
  shows "process_excel_file U filepath = Inr []"
  using assms by (simp add: process_excel_file_def Let_def)

text \<open>
  Claim C10, amended. Within the chain of the first loop a label takes one branch only,
  in the priority code, name, unit, price: the columns chosen for code, name and unit
  are pairwise different labels, and so is the price column when some label took the
  \<open>FINAL\<close> branch. The \<open>PRECIO\<close> fallback is outside the chain and may give the price role
  to a label that already has a role. A label that contains both \<open>CODIGO\<close> and
  \<open>PRODUCTO\<close> takes the code branch only: when every label that matches the name rule
  also matches the code rule, no name column is found and the file yields no record.
\<close>

theorem column_roles_exclusive:
  "(code_col (map_columns U cols) = Some a \<and> name_col (map_columns U cols) = Some b \<longrightarrow> a \<noteq> b) \<and>
   (code_col (map_columns U cols) = Some a \<and> unit_col (map_columns U cols) = Some b \<longrightarrow> a \<noteq> b) \<and>
   (name_col (map_columns U cols) = Some a \<and> unit_col (map_columns U cols) = Some b \<longrightarrow> a \<noteq> b) \<and>
   ((\<exists>c \<in> set cols. column_role U c = PriceRole) \<and> price_col (map_columns U cols) = Some a \<longrightarrow>
      code_col (map_columns U cols) \<noteq> Some a \<and> name_col (map_columns U cols) \<noteq> Some a \<and>
      unit_col (map_columns U cols) \<noteq> Some a) \<and>
   ((\<forall>c \<in> set cols. py_in (asc ''PRODUCTO'') (py_upper U c) \<or> py_in (asc ''NOMBRE'') (py_upper U c)
        \<longrightarrow> mentions_codigo (py_upper U c)) \<longrightarrow>
      name_col (map_columns U cols) = None) \<and>
   (read_raw filepath = Some df_raw \<and>
    read_header filepath (find_header_row U df_raw) = Some df \<and>
    cols = map (\<lambda>col. py_upper U (py_strip col)) (columns df) \<and>
    (\<forall>c \<in> set cols. py_in (asc ''PRODUCTO'') (py_upper U c) \<or> py_in (asc ''NOMBRE'') (py_upper U c)
        \<longrightarrow> mentions_codigo (py_upper U c)) \<longrightarrow>
      process_excel_file U filepath = Inr [])"
proof (intro conjI impI)
  show "a \<noteq> b"
    if "code_col (map_columns U cols) = Some a \<and> name_col (map_columns U cols) = Some b"
    using that find_role [of U CodeRole "rev cols" a] find_role [of U NameRole "rev cols" b]
    by (auto simp: map_columns_code map_columns_name)
  show "a \<noteq> b"
    if "code_col (map_columns U cols) = Some a \<and> unit_col (map_columns U cols) = Some b"
    using that find_role [of U CodeRole "rev cols" a] find_role [of U UnitRole "rev cols" b]
    by (auto simp: map_columns_code map_columns_unit)
  show "a \<noteq> b"
    if "name_col (map_columns U cols) = Some a \<and> unit_col (map_columns U cols) = Some b"
    using that find_role [of U NameRole "rev cols" a] find_role [of U UnitRole "rev cols" b]
    by (auto simp: map_columns_name map_columns_unit)
  show "name_col (map_columns U cols) = None"
    if "\<forall>c \<in> set cols. py_in (asc ''PRODUCTO'') (py_upper U c) \<or> py_in (asc ''NOMBRE'') (py_upper U c)
        \<longrightarrow> mentions_codigo (py_upper U c)"
    using that by (rule no_name_role)
  show "process_excel_file U filepath = Inr []"
    if "read_raw filepath = Some df_raw \<and>
    read_header filepath (find_header_row U df_raw) = Some df \<and>
    cols = map (\<lambda>col. py_upper U (py_strip col)) (columns df) \<and>
    (\<forall>c \<in> set cols. py_in (asc ''PRODUCTO'') (py_upper U c) \<or> py_in (asc ''NOMBRE'') (py_upper U c)
        \<longrightarrow> mentions_codigo (py_upper U c))"
    using that no_name_role [of cols U] no_name_no_records [of filepath df_raw U df] by blast
next
  assume h: "(\<exists>c \<in> set cols. column_role U c = PriceRole) \<and> price_col (map_columns U cols) = Some a"
  then have "find (\<lambda>c. column_role U c = PriceRole) (rev cols) \<noteq> None"
    by (auto simp: find_None_iff)
  with h have pr: "find (\<lambda>c. column_role U c = PriceRole) (rev cols) = Some a"
    by (auto simp: map_columns_price)
  then have ra: "column_role U a = PriceRole" using find_role by blast
  show "code_col (map_columns U cols) \<noteq> Some a"
    using ra find_role [of U CodeRole "rev cols" a] by (auto simp: map_columns_code)
  show "name_col (map_columns U cols) \<noteq> Some a"
    using ra find_role [of U NameRole "rev cols" a] by (auto simp: map_columns_name)
  show "unit_col (map_columns U cols) \<noteq> Some a"
    using ra find_role [of U UnitRole "rev cols" a] by (auto simp: map_columns_unit)
qed


theorem column_roles_exclusive_witness:
  "code_col (map_columns latin1_only [asc ''CODIGO'', asc ''PRODUCTO'']) = Some (asc ''CODIGO'') \<and>
   name_col (map_columns latin1_only [asc ''CODIGO'', asc ''PRODUCTO'']) = Some (asc ''PRODUCTO'') \<and>
   asc ''CODIGO'' \<noteq> asc ''PRODUCTO'' \<and>
   list_all (\<lambda>c.
      py_in (asc ''PRODUCTO'') (py_upper latin1_only c) \<or> py_in (asc ''NOMBRE'') (py_upper latin1_only c)
        \<longrightarrow> mentions_codigo (py_upper latin1_only c)) [asc ''CODIGO PRODUCTO'', asc ''PRECIO''] \<and>
   process_excel_file latin1_only
     \<lparr>file_name = asc ''ALPINA 25.xlsx'',
      read_raw = Some [[PyStr (asc '' codigo producto ''), PyStr (asc ''Precio'')],
                       [PyInt 101, PyInt 4500]],
      read_header = (\<lambda>h. Some \<lparr>columns = [asc '' codigo producto '', asc ''Precio''],
                                 rows = [[PyInt 101, PyInt 4500]]\<rparr>)\<rparr> = Inr []"
proof -
  let ?df = "\<lparr>columns = [asc '' codigo producto '', asc ''Precio''],
             rows = [[PyInt 101, PyInt 4500]]\<rparr>"
  let ?raw = "[[PyStr (asc '' codigo producto ''), PyStr (asc ''Precio'')], [PyInt 101, PyInt 4500]]"
  let ?f = "\<lparr>file_name = asc ''ALPINA 25.xlsx'', read_raw = Some ?raw, read_header = (\<lambda>h. Some ?df)\<rparr>"
  have c1: "code_col (map_columns latin1_only [asc ''CODIGO'', asc ''PRODUCTO'']) = Some (asc ''CODIGO'')"
    by (simp add: map_columns_code role_codigo role_producto)
  have n1: "name_col (map_columns latin1_only [asc ''CODIGO'', asc ''PRODUCTO'']) = Some (asc ''PRODUCTO'')"
    by (simp add: map_columns_name role_codigo role_producto)
  have d1: "asc ''CODIGO'' \<noteq> asc ''PRODUCTO''"
    using column_roles_exclusive
      [of latin1_only "[asc ''CODIGO'', asc ''PRODUCTO'']" "asc ''CODIGO''" "asc ''PRODUCTO''"] c1 n1
    by blast
  have cols: "[asc ''CODIGO PRODUCTO'', asc ''PRECIO'']
      = map (\<lambda>col. py_upper latin1_only (py_strip col)) (columns ?df)"
    by (simp add: py_strip_def py_isspace_def py_upper_def upper_cp_def asc_def)
  have rule: "\<forall>c \<in> set [asc ''CODIGO PRODUCTO'', asc ''PRECIO''].
      py_in (asc ''PRODUCTO'') (py_upper latin1_only c) \<or> py_in (asc ''NOMBRE'') (py_upper latin1_only c)
        \<longrightarrow> mentions_codigo (py_upper latin1_only c)"
    by (simp add: upper_latin1_caps mentions_codigo_def codigo_plain_def asc_def)
  have "process_excel_file latin1_only ?f = Inr []"
    using column_roles_exclusive
      [of latin1_only "[asc ''CODIGO PRODUCTO'', asc ''PRECIO'']" _ _ ?f ?raw ?df] cols rule
    by simp
  then show ?thesis using c1 n1 d1 rule unfolding list_all_iff by blast
qed

section \<open>Rows and the records they yield\<close>

lemma py_strip_ends:
  assumes "py_strip s \<noteq> []"
  shows "\<not> py_isspace (hd (py_strip s)) \<and> \<not> py_isspace (last (py_strip s))"
proof -
  define d where "d = dropWhile py_isspace s"
  define e where "e = dropWhile py_isspace (rev d)"
  have t: "py_strip s = rev e" by (simp add: py_strip_def d_def e_def)
  with assms have ene: "e \<noteq> []" by simp
  then have he: "\<not> py_isspace (hd e)" unfolding e_def by (metis hd_dropWhile)
  have "rev d = takeWhile py_isspace (rev d) @ e" by (simp add: e_def)
  then have "last (rev d) = last e" using ene by (metis last_appendR)
  moreover have dne: "d \<noteq> []" using ene e_def by auto
  ultimately have "last e = hd d" by (simp add: last_rev)
  moreover have "\<not> py_isspace (hd d)" using dne unfolding d_def by (metis hd_dropWhile)
  ultimately have "\<not> py_isspace (last e)" by simp
  then show ?thesis using t ene he by (simp add: hd_rev last_rev)
qed

lemma py_strip_fixed:
  assumes "s \<noteq> []" "\<not> py_isspace (hd s)" "\<not> py_isspace (last s)"
  shows "py_strip s = s"
proof -
  have 1: "dropWhile py_isspace s = s" using assms by (cases s) auto
  have "rev s \<noteq> []" "\<not> py_isspace (hd (rev s))" using assms by (simp_all add: hd_rev)
  then have 2: "dropWhile py_isspace (rev s) = rev s" by (cases "rev s") auto
  show ?thesis unfolding py_strip_def 1 2 by simp
qed

lemma py_strip_idem: "py_strip (py_strip s) = py_strip s"
proof (cases "py_strip s = []")
  case True
  have "py_strip [] = []" by (simp add: py_strip_def)
  then show ?thesis unfolding True .
next
  case False
  then show ?thesis using py_strip_ends [of s] py_strip_fixed [of "py_strip s"] by blast
qed

lemma process_row_Some:
  assumes "process_row U cols m b row = Inr (Some p)"
  shows "\<exists>c n. row_get cols row (code_col m) = Scalar c \<and> c \<noteq> NA \<and>
               row_get cols row (name_col m) = Scalar n \<and> n \<noteq> NA \<and>
               py_strip (py_str c) \<noteq> [] \<and>
               py_upper U (py_str c) \<noteq> codigo_accent \<and> py_upper U (py_str c) \<noteq> codigo_plain \<and>
               code p = py_strip (py_str c) \<and> name p = py_strip (py_str n) \<and>
               2 < length (name p) \<and> brand p = b \<and>
               unit_of cols row (unit_col m) = Inr (unit p) \<and>
               price_of U cols row (price_col m) = Inr (price p)"
proof -
  from assms obtain c where c: "row_get cols row (code_col m) = Scalar c"
    by (cases "row_get cols row (code_col m)") (auto simp: process_row_def)
  from assms c have cna: "c \<noteq> NA" by (auto simp: process_row_def)
  from assms c cna obtain n where n: "row_get cols row (name_col m) = Scalar n"
    by (cases "row_get cols row (name_col m)") (auto simp: process_row_def)
  from assms c cna n have nna: "n \<noteq> NA" by (auto simp: process_row_def)
  from assms c cna n nna have g: "py_strip (py_str c) \<noteq> []" "py_strip (py_str n) \<noteq> []"
    "py_upper U (py_str c) \<noteq> codigo_accent" "py_upper U (py_str c) \<noteq> codigo_plain"
    by (auto simp: process_row_def split: if_splits)
  from assms c cna n nna g obtain u where u: "unit_of cols row (unit_col m) = Inr u"
    by (cases "unit_of cols row (unit_col m)") (auto simp: process_row_def)
  from assms c cna n nna g u obtain pr where pr: "price_of U cols row (price_col m) = Inr pr"
    by (cases "price_of U cols row (price_col m)") (auto simp: process_row_def)
  from assms c cna n nna g u pr
  have "2 < length (py_strip (py_str n))"
    and "p = \<lparr>code = py_strip (py_str c), name = py_strip (py_str n), unit = u, price = pr, brand = b\<rparr>"
    by (auto simp: process_row_def Let_def split: if_splits)
  then show ?thesis using c cna n nna g u pr by simp
qed

lemma process_row_code_missing:
  assumes "row_get cols row (code_col m) = Scalar c" "c = NA \<or> py_strip (py_str c) = []"
  shows "process_row U cols m b row \<noteq> Inr (Some p)"
  using assms process_row_Some [of U cols m b row p] by auto

lemma process_row_name_missing:
  assumes "row_get cols row (name_col m) = Scalar n" "n = NA \<or> length (py_strip (py_str n)) \<le> 2"
  shows "process_row U cols m b row \<noteq> Inr (Some p)"
  using assms process_row_Some [of U cols m b row p] by auto

lemma rows_loop_inv:
  assumes "\<And>row p. G row \<Longrightarrow> process_row U cols m b row = Inr (Some p) \<Longrightarrow> P p"
    and "\<forall>row \<in> set rs. G row" and "\<forall>p \<in> set acc. P p"
    and "rows_loop U cols m b rs acc = Inr ps"
  shows "\<forall>p \<in> set ps. P p"
  using assms(2-)
proof (induction rs arbitrary: acc)
  case Nil
  then show ?case by simp
next
  case (Cons row rs)
  show ?case
  proof (cases "process_row U cols m b row")
    case (Inl e)
    with Cons.prems show ?thesis by simp
  next
    case (Inr r)
    show ?thesis
    proof (cases r)
      case None
      with Inr Cons show ?thesis by simp
    next
      case (Some q)
      have "G row" using Cons.prems by simp
      then have "P q" using assms(1) Inr Some by blast
      with Cons.prems have b: "\<forall>p \<in> set (acc @ [q]). P p" by simp
      have a: "\<forall>row \<in> set rs. G row" using Cons.prems by simp
      have c: "rows_loop U cols m b rs (acc @ [q]) = Inr ps"
        using Cons.prems Inr Some by simp
      show ?thesis using Cons.IH [OF a b c] .
    qed
  qed
qed

lemma process_excel_file_inv:
  assumes "\<And>cols m b row p. G row \<Longrightarrow> process_row U cols m b row = Inr (Some p) \<Longrightarrow> P p"
    and "\<forall>h df. read_header f h = Some df \<longrightarrow> (\<forall>row \<in> set (rows df). G row)"
    and "process_excel_file U f = Inr ps"
  shows "\<forall>p \<in> set ps. P p"
proof (cases "read_raw f")
  case None
  with assms(3) show ?thesis by (simp add: process_excel_file_def)
next
  case (Some df_raw)
  show ?thesis
  proof (cases "read_header f (find_header_row U df_raw)")
    case None
    with Some assms(3) show ?thesis by (simp add: process_excel_file_def)
  next
    case (Some df)
    define cols where "cols = map (\<lambda>col. py_upper U (py_strip col)) (columns df)"
    define m where "m = map_columns U cols"
    show ?thesis
    proof (cases "truthy (code_col m) \<and> truthy (name_col m)")
      case False
      with Some \<open>read_raw f = Some df_raw\<close> assms(3) show ?thesis
        by (auto simp: process_excel_file_def Let_def cols_def m_def)
    next
      case True
      with Some \<open>read_raw f = Some df_raw\<close> assms(3)
      have "rows_loop U cols m (extract_brand_from_filename U (file_name f)) (rows df) [] = Inr ps"
        by (auto simp: process_excel_file_def Let_def cols_def m_def)
      moreover have "\<forall>row \<in> set (rows df). G row" using assms(2) Some by blast
      ultimately show ?thesis
        using rows_loop_inv [of G U cols m _ P "rows df" "[]" ps] assms(1) by simp
    qed
  qed
qed

lemma truncate_with_category: "item.truncate (with_category U p) = p"
  by (simp add: with_category_def item.truncate_def item.extend_def)

lemma with_category_fields:
  "code (with_category U p) = code p" "name (with_category U p) = name p"
  "unit (with_category U p) = unit p" "price (with_category U p) = price p"
  "brand (with_category U p) = brand p"
  "category (with_category U p) = categorize_product U (name p)"
  by (simp_all add: with_category_def item.extend_def product.fields_def)

lemma files_loop_inv:
  assumes "\<And>cols m b row p. G row \<Longrightarrow> process_row U cols m b row = Inr (Some p) \<Longrightarrow> P p"
    and "\<forall>f \<in> set fs. \<forall>h df. read_header f h = Some df \<longrightarrow> (\<forall>row \<in> set (rows df). G row)"
    and "\<forall>q \<in> set acc. P (item.truncate q)"
    and "files_loop U fs acc bs = Inr (ps, bs')"
  shows "\<forall>q \<in> set ps. P (item.truncate q)"
  using assms(2-)
proof (induction fs arbitrary: acc bs)
  case Nil
  then show ?case by simp
next
  case (Cons f fs)
  show ?case
  proof (cases "process_excel_file U f")
    case (Inl e)
    with Cons.prems show ?thesis by simp
  next
    case (Inr items)
    have "\<forall>p \<in> set items. P p"
      using process_excel_file_inv [of G U P f items] assms(1) Cons.prems(1) Inr by simp
    then have b: "\<forall>q \<in> set (acc @ map (with_category U) items). P (item.truncate q)"
      using Cons.prems(2) by (auto simp: truncate_with_category)
    have c: "files_loop U fs (acc @ map (with_category U) items)
        (bs \<union> set (map brand (map (with_category U) items))) = Inr (ps, bs')"
      using Cons.prems(3) Inr by (simp add: Let_def image_image with_category_fields)
    have a: "\<forall>f \<in> set fs. \<forall>h df. read_header f h = Some df \<longrightarrow> (\<forall>row \<in> set (rows df). G row)"
      using Cons.prems(1) by simp
    show ?thesis using Cons.IH [OF a b c] .
  qed
qed

lemma main_inv:
  assumes "\<And>cols m b row p. G row \<Longrightarrow> process_row U cols m b row = Inr (Some p) \<Longrightarrow> P p"
    and "\<forall>f \<in> set fs. \<forall>h df. read_header f h = Some df \<longrightarrow> (\<forall>row \<in> set (rows df). G row)"
    and "main U fs = Inr cat"
  shows "\<forall>q \<in> set (products cat). P (item.truncate q)"
proof (cases "files_loop U fs [] {}")
  case (Inl e)
  with assms(3) show ?thesis by (simp add: main_def)
next
  case (Inr r)
  obtain ps bs where r: "r = (ps, bs)" by (cases r)
  have "\<forall>q \<in> set ps. P (item.truncate q)"
    using files_loop_inv [of G U P fs "[]" "{}" ps bs] assms(1,2) Inr r by simp
  moreover have "set (products cat) = set ps"
    using assms(3) Inr r by (auto simp: main_def Let_def)
  ultimately show ?thesis by simp
qed

section \<open>The sample files, evaluated\<close>

lemma alpina_cols:
  "py_upper U (py_strip (asc ''Codigo'')) = asc ''CODIGO''"
  "py_upper U (py_strip (asc ''Nombre'')) = asc ''NOMBRE''"
  "py_upper U (py_strip (asc ''Precio'')) = asc ''PRECIO''"
  by (simp_all add: py_strip_def py_isspace_def py_upper_def upper_cp_def asc_def)

lemma alpina_map:
  "map_columns U [asc ''CODIGO'', asc ''NOMBRE'', asc ''PRECIO'']
     = \<lparr>code_col = Some (asc ''CODIGO''), name_col = Some (asc ''NOMBRE''), unit_col = None,
        price_col = Some (asc ''PRECIO'')\<rparr>"
  by (simp add: map_columns_def no_columns_def upper_latin1_caps codigo_accent_def codigo_plain_def
      asc_def)

lemma alpina_row0:
  "process_row U [asc ''CODIGO'', asc ''NOMBRE'', asc ''PRECIO'']
     (map_columns U [asc ''CODIGO'', asc ''NOMBRE'', asc ''PRECIO'']) b
     [PyInt 7, PyStr (asc ''Yogurt fresa''), PyInt (- 1200)]
     = Inr (Some \<lparr>code = asc ''7'', name = asc ''Yogurt fresa'', unit = [], price = - 1200, brand = b\<rparr>)"
  unfolding alpina_map
  by (simp add: process_row_def unit_of_def price_of_def
      clean_price_def py_strip_def py_isspace_def py_upper_def upper_cp_def codigo_accent_def
      codigo_plain_def asc_def str_int_def str_nat.simps)

lemma alpina_row1:
  "process_row U [asc ''CODIGO'', asc ''NOMBRE'', asc ''PRECIO'']
     (map_columns U [asc ''CODIGO'', asc ''NOMBRE'', asc ''PRECIO'']) b
     [PyStr (asc '' CODIGO''), PyStr (asc ''NOMBRE''), PyStr (asc ''PRECIO'')]
     = Inr (Some \<lparr>code = asc ''CODIGO'', name = asc ''NOMBRE'', unit = [], price = 0, brand = b\<rparr>)"
  unfolding alpina_map
  by (simp add: process_row_def unit_of_def price_of_def
      clean_price_def py_strip_def py_isspace_def py_upper_def upper_cp_def codigo_accent_def
      codigo_plain_def asc_def price_chars_def commas_to_periods_def float_of_str_def
      py_isdecimal_def py_decimal_def)

lemma alpina_row2:
  "process_row U [asc ''CODIGO'', asc ''NOMBRE'', asc ''PRECIO'']
     (map_columns U [asc ''CODIGO'', asc ''NOMBRE'', asc ''PRECIO'']) b
     [PyInt 8, PyStr (asc ''AB''), PyInt 100]
     = Inr None"
  unfolding alpina_map
  by (simp add: process_row_def unit_of_def price_of_def
      clean_price_def py_strip_def py_isspace_def py_upper_def upper_cp_def codigo_accent_def
      codigo_plain_def asc_def str_int_def str_nat.simps)

lemma alpina_row3:
  "process_row U [asc ''CODIGO'', asc ''NOMBRE'', asc ''PRECIO'']
     (map_columns U [asc ''CODIGO'', asc ''NOMBRE'', asc ''PRECIO'']) b
     [NA, PyStr (asc ''Queso''), PyInt 5]
     = Inr None"
  unfolding alpina_map by (simp add: process_row_def asc_def)

lemma alpina_header:
  "find_header_row U ([PyStr (asc ''Codigo''), PyStr (asc ''Nombre''), PyStr (asc ''Precio'')]
     # alpina_rows) = 0"
  by (simp add: find_header_row_def mentions_codigo_def row_str_def py_upper_def upper_cp_def
      codigo_accent_def codigo_plain_def asc_def)

lemma alpina_brand: "extract_brand_from_filename U (asc ''ALPINA 2025.xlsx'') = asc ''ALPINA''"
proof -
  have "path_stem (asc ''ALPINA 2025.xlsx'') = asc ''ALPINA'' @ asc '' '' @ asc ''2025'' @ []"
    by (simp add: path_stem_def path_name_def asc_def)
  then have "extract_brand_from_filename U (asc ''ALPINA 2025.xlsx'') = py_strip (asc ''ALPINA'')"
    by (rule brand_match) (simp_all add: asc_def py_isspace_def isdecimal_latin1)
  then show ?thesis by (simp add: py_strip_def asc_def py_isspace_def)
qed

lemma alpina_items:
  "process_excel_file U alpina =
     Inr [\<lparr>code = asc ''7'', name = asc ''Yogurt fresa'', unit = [], price = - 1200,
            brand = asc ''ALPINA''\<rparr>,
          \<lparr>code = asc ''CODIGO'', name = asc ''NOMBRE'', unit = [], price = 0,
            brand = asc ''ALPINA''\<rparr>]"
proof -
  have t: "truthy (code_col (map_columns U [asc ''CODIGO'', asc ''NOMBRE'', asc ''PRECIO'']))"
    "truthy (name_col (map_columns U [asc ''CODIGO'', asc ''NOMBRE'', asc ''PRECIO'']))"
    unfolding alpina_map by (simp_all add: asc_def)
  have "rows_loop U [asc ''CODIGO'', asc ''NOMBRE'', asc ''PRECIO'']
          (map_columns U [asc ''CODIGO'', asc ''NOMBRE'', asc ''PRECIO'']) (asc ''ALPINA'')
          alpina_rows [] =
     Inr [\<lparr>code = asc ''7'', name = asc ''Yogurt fresa'', unit = [], price = - 1200,
            brand = asc ''ALPINA''\<rparr>,
          \<lparr>code = asc ''CODIGO'', name = asc ''NOMBRE'', unit = [], price = 0,
            brand = asc ''ALPINA''\<rparr>]"
    by (simp add: alpina_rows_def alpina_row0 alpina_row1 alpina_row2 alpina_row3)
  then show ?thesis
    using t
    by (simp add: process_excel_file_def alpina_def alpina_header alpina_cols alpina_brand Let_def)
qed

lemma lecheria_cols:
  "py_upper U (py_strip codigo_accent) = codigo_accent"
  "py_upper U (py_strip (asc ''PRODUCTO'')) = asc ''PRODUCTO''"
  "py_upper U (py_strip (asc ''UNIDAD'')) = asc ''UNIDAD''"
  "py_upper U (py_strip (asc ''P. FINAL'')) = asc ''P. FINAL''"
  by (simp_all add: py_strip_def py_isspace_def py_upper_def upper_cp_def asc_def
      codigo_accent_def)

lemma lecheria_map:
  "map_columns U [codigo_accent, asc ''PRODUCTO'', asc ''UNIDAD'', asc ''P. FINAL'']
     = \<lparr>code_col = Some (codigo_accent), name_col = Some (asc ''PRODUCTO''),
        unit_col = Some (asc ''UNIDAD''), price_col = Some (asc ''P. FINAL'')\<rparr>"
  by (simp add: map_columns_def no_columns_def py_upper_def upper_cp_def codigo_accent_def
      codigo_plain_def asc_def)

lemma lecheria_row0:
  "process_row U [codigo_accent, asc ''PRODUCTO'', asc ''UNIDAD'', asc ''P. FINAL'']
     (map_columns U [codigo_accent, asc ''PRODUCTO'', asc ''UNIDAD'', asc ''P. FINAL'']) b
     [PyStr (asc ''001''), PyStr (asc ''LECHE ENTERA''), PyStr (asc ''LT''), PyInt 4500]
     = Inr (Some \<lparr>code = asc ''001'', name = asc ''LECHE ENTERA'', unit = asc ''LT'',
                    price = 4500, brand = b\<rparr>)"
  unfolding lecheria_map
  by (simp add: process_row_def unit_of_def price_of_def
      clean_price_def py_strip_def py_isspace_def py_upper_def upper_cp_def codigo_accent_def
      codigo_plain_def asc_def)

lemma lecheria_header:
  "find_header_row U
        [[PyStr (asc ''LISTA DE PRECIOS''), NA, NA, NA],
         [NA, NA, NA, NA],
         [PyStr (codigo_accent), PyStr (asc ''PRODUCTO''),
          PyStr (asc ''UNIDAD''), PyStr (asc ''P. FINAL'')],
         [PyStr (asc ''001''), PyStr (asc ''LECHE ENTERA''), PyStr (asc ''LT''), PyInt 4500]] = 2"
  by (simp add: find_header_row_def mentions_codigo_def row_str_def py_upper_def upper_cp_def
      codigo_accent_def codigo_plain_def asc_def)

lemma lecheria_brand: "extract_brand_from_filename U (asc ''LECHERIA 26.xlsx'') = asc ''LECHERIA''"
proof -
  have "path_stem (asc ''LECHERIA 26.xlsx'') = asc ''LECHERIA'' @ asc '' '' @ asc ''26'' @ []"
    by (simp add: path_stem_def path_name_def asc_def)
  then have "extract_brand_from_filename U (asc ''LECHERIA 26.xlsx'') = py_strip (asc ''LECHERIA'')"
    by (rule brand_match) (simp_all add: asc_def py_isspace_def isdecimal_latin1)
  then show ?thesis by (simp add: py_strip_def asc_def py_isspace_def)
qed

lemma lecheria_items:
  "process_excel_file U lecheria =
     Inr [\<lparr>code = asc ''001'', name = asc ''LECHE ENTERA'', unit = asc ''LT'', price = 4500,
            brand = asc ''LECHERIA''\<rparr>]"
proof -
  have t: "truthy (code_col (map_columns U [codigo_accent, asc ''PRODUCTO'', asc ''UNIDAD'', asc ''P. FINAL'']))"
    "truthy (name_col (map_columns U [codigo_accent, asc ''PRODUCTO'', asc ''UNIDAD'', asc ''P. FINAL'']))"
    unfolding lecheria_map by (simp_all add: asc_def codigo_accent_def)
  show ?thesis
    using t
    by (simp add: process_excel_file_def lecheria_def lecheria_header lecheria_cols
        lecheria_brand lecheria_row0 Let_def)
qed

lemma category_leche:
  "categorize_product U (asc ''LECHE ENTERA'') = lacteos"
  by (simp add: categorize_product_def category_table_def py_upper_def upper_cp_def asc_def
      lacteos_def)

lemma category_yogurt:
  "categorize_product U (asc ''Yogurt fresa'') = lacteos"
  by (simp add: categorize_product_def category_table_def py_upper_def upper_cp_def asc_def
      lacteos_def)

lemma category_nombre:
  "categorize_product U (asc ''NOMBRE'') = asc ''Otros''"
  by (simp add: categorize_product_def category_table_def py_upper_def upper_cp_def asc_def
      otros_def)

lemma with_category_literal:
  "with_category U \<lparr>code = a, name = n, unit = u, price = p, brand = b\<rparr>
     = \<lparr>code = a, name = n, unit = u, price = p, brand = b, category = categorize_product U n\<rparr>"
  by (simp add: with_category_def item.defs product.defs)

lemma samples_loop:
  "files_loop U [alpina, lecheria] [] {} =
     Inr ([\<lparr>code = asc ''7'', name = asc ''Yogurt fresa'', unit = [], price = - 1200,
             brand = asc ''ALPINA'', category = lacteos\<rparr>,
           \<lparr>code = asc ''CODIGO'', name = asc ''NOMBRE'', unit = [], price = 0,
             brand = asc ''ALPINA'', category = asc ''Otros''\<rparr>,
           \<lparr>code = asc ''001'', name = asc ''LECHE ENTERA'', unit = asc ''LT'', price = 4500,
             brand = asc ''LECHERIA'', category = lacteos\<rparr>],
          {asc ''ALPINA'', asc ''LECHERIA''})"
  by (simp add: alpina_items lecheria_items with_category_literal category_leche
      category_yogurt category_nombre Let_def insert_commute)

lemma samples_main: "main U [alpina, lecheria] = Inr sample_catalog"
proof -
  have b: "sorted_list_of_set {asc ''ALPINA'', asc ''LECHERIA''} = [asc ''ALPINA'', asc ''LECHERIA'']"
    using sorted_list_of_set.idem_if_sorted_distinct [of "[asc ''ALPINA'', asc ''LECHERIA'']"]
    by (simp add: asc_def)
  have c: "sorted_list_of_set (set (map category
          [\<lparr>code = asc ''CODIGO'', name = asc ''NOMBRE'', unit = [], price = 0,
             brand = asc ''ALPINA'', category = asc ''Otros''\<rparr>,
           \<lparr>code = asc ''7'', name = asc ''Yogurt fresa'', unit = [], price = - 1200,
             brand = asc ''ALPINA'', category = lacteos\<rparr>,
           \<lparr>code = asc ''001'', name = asc ''LECHE ENTERA'', unit = asc ''LT'', price = 4500,
             brand = asc ''LECHERIA'', category = lacteos\<rparr>]))
        = [lacteos, asc ''Otros'']"
    by (simp add: sorted_list_of_set_sort_remdups asc_def lacteos_def)
  have s: "sort_key (\<lambda>x. (brand x, name x))
          [\<lparr>code = asc ''7'', name = asc ''Yogurt fresa'', unit = [], price = - 1200,
             brand = asc ''ALPINA'', category = lacteos\<rparr>,
           \<lparr>code = asc ''CODIGO'', name = asc ''NOMBRE'', unit = [], price = 0,
             brand = asc ''ALPINA'', category = asc ''Otros''\<rparr>,
           \<lparr>code = asc ''001'', name = asc ''LECHE ENTERA'', unit = asc ''LT'', price = 4500,
             brand = asc ''LECHERIA'', category = lacteos\<rparr>]
        = [\<lparr>code = asc ''CODIGO'', name = asc ''NOMBRE'', unit = [], price = 0,
             brand = asc ''ALPINA'', category = asc ''Otros''\<rparr>,
           \<lparr>code = asc ''7'', name = asc ''Yogurt fresa'', unit = [], price = - 1200,
             brand = asc ''ALPINA'', category = lacteos\<rparr>,
           \<lparr>code = asc ''001'', name = asc ''LECHE ENTERA'', unit = asc ''LT'', price = 4500,
             brand = asc ''LECHERIA'', category = lacteos\<rparr>]"
    by (simp add: asc_def)
  show ?thesis
    unfolding main_def samples_loop sum.case prod.case Let_def s b c sample_catalog_def by simp
qed

section \<open>The header guard of the row loop\<close>

text \<open>
  Claim C8. The guard against a repeated header row compares the upper-cased code cell
  with the two header labels without trimming it. In the sample file \<open>alpina\<close> the second
  data row repeats the header with a space before \<open>CODIGO\<close>: its trimmed upper-case code is
  the header label, and the row still yields a record, whose code is \<open>CODIGO\<close>.
\<close>

theorem header_guard_untrimmed:
  "py_upper latin1_only (py_strip (py_str (PyStr (asc '' CODIGO'')))) = codigo_plain \<and>
   process_row latin1_only [asc ''CODIGO'', asc ''NOMBRE'', asc ''PRECIO'']
     (map_columns latin1_only [asc ''CODIGO'', asc ''NOMBRE'', asc ''PRECIO'']) (asc ''ALPINA'')
     [PyStr (asc '' CODIGO''), PyStr (asc ''NOMBRE''), PyStr (asc ''PRECIO'')]
     = Inr (Some \<lparr>code = asc ''CODIGO'', name = asc ''NOMBRE'', unit = [], price = 0,
                    brand = asc ''ALPINA''\<rparr>) \<and>
   process_excel_file latin1_only alpina =
     Inr [\<lparr>code = asc ''7'', name = asc ''Yogurt fresa'', unit = [], price = - 1200,
            brand = asc ''ALPINA''\<rparr>,
          \<lparr>code = asc ''CODIGO'', name = asc ''NOMBRE'', unit = [], price = 0,
            brand = asc ''ALPINA''\<rparr>]"
proof -
  have "py_upper latin1_only (py_strip (py_str (PyStr (asc '' CODIGO'')))) = codigo_plain"
    by (simp add: py_strip_def py_isspace_def py_upper_def upper_cp_def asc_def codigo_plain_def)
  then show ?thesis using alpina_row1 alpina_items by blast
qed

section \<open>Code and name of the records\<close>

lemma truncate_fields:
  "code (item.truncate q) = code q" "name (item.truncate q) = name q"
  "price (item.truncate q) = price q" "brand (item.truncate q) = brand q"
  by (simp_all add: item.truncate_def)

lemma process_row_code_name:
  assumes "process_row U cols m b row = Inr (Some p)"
  shows "py_strip (code p) \<noteq> [] \<and> py_strip (name p) \<noteq> [] \<and> 2 < length (py_strip (name p))"
proof -
  from process_row_Some [OF assms] obtain c n where
    "py_strip (py_str c) \<noteq> []" "code p = py_strip (py_str c)"
    "name p = py_strip (py_str n)" "2 < length (name p)"
    by blast
  then show ?thesis by (auto simp: py_strip_idem)
qed

text \<open>
  Claim C9. A record that a data row yields has a code and a name that are not empty
  after trimming, and its trimmed name is longer than two characters. A row whose code or
  name is missing or blank, or whose trimmed name has at most two characters, yields no
  record. The same holds for every record of the catalog.
\<close>

theorem records_have_code_and_name:
  "(process_row U cols m b row = Inr (Some p) \<longrightarrow>
      py_strip (code p) \<noteq> [] \<and> py_strip (name p) \<noteq> [] \<and> 2 < length (py_strip (name p))) \<and>
   (row_get cols row (code_col m) = Scalar c \<and> (c = NA \<or> py_strip (py_str c) = []) \<longrightarrow>
      process_row U cols m b row \<noteq> Inr (Some p)) \<and>
   (row_get cols row (name_col m) = Scalar n \<and> (n = NA \<or> length (py_strip (py_str n)) \<le> 2) \<longrightarrow>
      process_row U cols m b row \<noteq> Inr (Some p)) \<and>
   (main U excel_files = Inr cat \<longrightarrow>
      (\<forall>q \<in> set (products cat).
         py_strip (code q) \<noteq> [] \<and> py_strip (name q) \<noteq> [] \<and> 2 < length (py_strip (name q))))"
proof (intro conjI impI)
  show "py_strip (code p) \<noteq> []" "py_strip (name p) \<noteq> []" "2 < length (py_strip (name p))"
    if "process_row U cols m b row = Inr (Some p)"
    using process_row_code_name [OF that] by simp_all
  show "process_row U cols m b row \<noteq> Inr (Some p)"
    if "row_get cols row (code_col m) = Scalar c \<and> (c = NA \<or> py_strip (py_str c) = [])"
    using that process_row_code_missing by blast
  show "process_row U cols m b row \<noteq> Inr (Some p)"
    if "row_get cols row (name_col m) = Scalar n \<and> (n = NA \<or> length (py_strip (py_str n)) \<le> 2)"
    using that process_row_name_missing by blast
  show "\<forall>q \<in> set (products cat).
         py_strip (code q) \<noteq> [] \<and> py_strip (name q) \<noteq> [] \<and> 2 < length (py_strip (name q))"
    if "main U excel_files = Inr cat"
  proof -
    have "\<forall>q \<in> set (products cat).
        py_strip (code (item.truncate q)) \<noteq> [] \<and> py_strip (name (item.truncate q)) \<noteq> [] \<and>
        2 < length (py_strip (name (item.truncate q)))"
      using main_inv [of "\<lambda>row. True" U
          "\<lambda>p. py_strip (code p) \<noteq> [] \<and> py_strip (name p) \<noteq> [] \<and> 2 < length (py_strip (name p))"
          excel_files cat]
        process_row_code_name that
      by blast
    then show ?thesis by (simp add: truncate_fields)
  qed
qed

theorem records_have_code_and_name_witness:
  "process_row latin1_only [asc ''CODIGO'', asc ''NOMBRE'', asc ''PRECIO'']
     (map_columns latin1_only [asc ''CODIGO'', asc ''NOMBRE'', asc ''PRECIO'']) (asc ''ALPINA'')
     [PyInt 7, PyStr (asc ''Yogurt fresa''), PyInt (- 1200)]
     = Inr (Some \<lparr>code = asc ''7'', name = asc ''Yogurt fresa'', unit = [], price = - 1200,
                    brand = asc ''ALPINA''\<rparr>) \<and>
   py_strip (asc ''7'') \<noteq> [] \<and> 2 < length (py_strip (asc ''Yogurt fresa'')) \<and>
   row_get [asc ''CODIGO'', asc ''NOMBRE'', asc ''PRECIO'']
     [PyInt 8, PyStr (asc ''AB''), PyInt 100]
     (name_col (map_columns latin1_only [asc ''CODIGO'', asc ''NOMBRE'', asc ''PRECIO'']))
     = Scalar (PyStr (asc ''AB'')) \<and>
   length (py_strip (py_str (PyStr (asc ''AB'')))) \<le> 2 \<and>
   (\<forall>p. process_row latin1_only [asc ''CODIGO'', asc ''NOMBRE'', asc ''PRECIO'']
     (map_columns latin1_only [asc ''CODIGO'', asc ''NOMBRE'', asc ''PRECIO'']) (asc ''ALPINA'')
     [PyInt 8, PyStr (asc ''AB''), PyInt 100] \<noteq> Inr (Some p)) \<and>
   (\<exists>cat. main latin1_only [alpina, lecheria] = Inr cat \<and> length (products cat) = 3 \<and>
      (\<forall>q \<in> set (products cat). py_strip (code q) \<noteq> [] \<and> 2 < length (py_strip (name q))))"
proof -
  let ?cols = "[asc ''CODIGO'', asc ''NOMBRE'', asc ''PRECIO'']"
  let ?p = "\<lparr>code = asc ''7'', name = asc ''Yogurt fresa'', unit = [], price = - 1200,
                    brand = asc ''ALPINA''\<rparr>"
  have r0: "process_row latin1_only ?cols (map_columns latin1_only ?cols) (asc ''ALPINA'')
     [PyInt 7, PyStr (asc ''Yogurt fresa''), PyInt (- 1200)] = Inr (Some ?p)"
    by (rule alpina_row0)
  have a: "py_strip (asc ''7'') \<noteq> [] \<and> 2 < length (py_strip (asc ''Yogurt fresa''))"
    using records_have_code_and_name
      [of latin1_only ?cols "map_columns latin1_only ?cols" "asc ''ALPINA''"
         "[PyInt 7, PyStr (asc ''Yogurt fresa''), PyInt (- 1200)]" ?p] r0
    by simp
  have g: "row_get ?cols [PyInt 8, PyStr (asc ''AB''), PyInt 100]
     (name_col (map_columns latin1_only ?cols)) = Scalar (PyStr (asc ''AB''))"
    unfolding alpina_map by (simp add: asc_def)
  have l: "length (py_strip (py_str (PyStr (asc ''AB'')))) \<le> 2"
    by (simp add: py_strip_def py_isspace_def asc_def)
  have b: "process_row latin1_only ?cols (map_columns latin1_only ?cols) (asc ''ALPINA'')
     [PyInt 8, PyStr (asc ''AB''), PyInt 100] \<noteq> Inr (Some p)" for p
    using records_have_code_and_name
      [of latin1_only ?cols "map_columns latin1_only ?cols" "asc ''ALPINA''"
         "[PyInt 8, PyStr (asc ''AB''), PyInt 100]" p _ "PyStr (asc ''AB'')"] g l
    by blast
  obtain cat where cat: "main latin1_only [alpina, lecheria] = Inr cat" "length (products cat) = 3"
    using samples_main [of latin1_only] by (simp add: sample_catalog_def)
  have c: "\<forall>q \<in> set (products cat). py_strip (code q) \<noteq> [] \<and> 2 < length (py_strip (name q))"
    using records_have_code_and_name [of latin1_only _ _ _ _ _ _ _ "[alpina, lecheria]" cat] cat
    by blast
  show ?thesis using r0 a g l b cat c by blast
qed

section \<open>The sign of a price\<close>

lemma float_of_str_nonneg: "float_of_str U s = Some r \<Longrightarrow> 0 \<le> r"
  by (auto simp: float_of_str_def Let_def split: list.splits if_splits)

lemma clean_price_nonneg: "\<not> is_number v \<Longrightarrow> 0 \<le> clean_price U v"
  by (auto simp: clean_price_def Let_def split: option.splits dest: float_of_str_nonneg)

lemma clean_price_number: "is_number v \<Longrightarrow> clean_price U v = float_of v"
  by (cases v) (simp_all add: clean_price_def)

lemma row_get_member: "row_get cols row c = Scalar v \<Longrightarrow> v = NA \<or> v \<in> set row"
proof (cases c)
  case None
  then show "row_get cols row c = Scalar v \<Longrightarrow> v = NA \<or> v \<in> set row" by simp
next
  case (Some col)
  assume g: "row_get cols row c = Scalar v"
  show "v = NA \<or> v \<in> set row"
  proof (cases "filter (\<lambda>(label, v). label = col) (zip cols row)")
    case Nil
    with g Some show ?thesis by simp
  next
    case (Cons x xs)
    obtain l w where x: "x = (l, w)" by (cases x)
    have "x \<in> set (filter (\<lambda>(label, v). label = col) (zip cols row))" using Cons by simp
    then have "(l, w) \<in> set (zip cols row)" using x by auto
    then have "w \<in> set row" by (rule set_zip_rightD)
    moreover have "v = w" using g Some Cons x by (cases xs) simp_all
    ultimately show ?thesis by simp
  qed
qed

lemma process_row_price:
  assumes "process_row U cols m b row = Inr (Some p)"
  shows "(\<not> truthy (price_col m) \<and> price p = 0) \<or>
         (\<exists>v. row_get cols row (price_col m) = Scalar v \<and> price p = clean_price U v)"
proof -
  from process_row_Some [OF assms]
  have "price_of U cols row (price_col m) = Inr (price p)" by blast
  then show ?thesis
    by (cases "row_get cols row (price_col m)") (auto simp: price_of_def split: if_splits)
qed

lemma process_row_negative:
  assumes "process_row U cols m b row = Inr (Some p)" "price p < 0"
  shows "\<exists>v. row_get cols row (price_col m) = Scalar v \<and> is_number v \<and> float_of v = price p"
proof -
  from process_row_price [OF assms(1)] assms(2)
  obtain v where v: "row_get cols row (price_col m) = Scalar v" "price p = clean_price U v"
    by auto
  with assms(2) have "is_number v" using clean_price_nonneg [of v U] by auto
  with v show ?thesis by (auto simp: clean_price_number)
qed

lemma process_row_nonneg:
  assumes "\<forall>v \<in> set row. is_number v \<longrightarrow> 0 \<le> float_of v"
    and "process_row U cols m b row = Inr (Some p)"
  shows "0 \<le> price p"
proof (rule ccontr)
  assume "\<not> 0 \<le> price p"
  then have "price p < 0" by simp
  from process_row_negative [OF assms(2) this]
  obtain v where v: "row_get cols row (price_col m) = Scalar v" "is_number v" "float_of v = price p"
    by blast
  then have "v \<in> set row" using row_get_member [of cols row "price_col m" v] by auto
  with assms(1) v \<open>price p < 0\<close> show False by auto
qed

text \<open>
  Claim C5, as stated, fails: a numeric cell is cast to a float as it is, so a negative
  number in the price column gives a record with a negative price. The first record of
  the sample file \<open>alpina\<close> has the price -1200, and it is in the catalog.
\<close>

theorem negative_price_counterexample:
  "process_excel_file latin1_only alpina =
     Inr [\<lparr>code = asc ''7'', name = asc ''Yogurt fresa'', unit = [], price = - 1200,
            brand = asc ''ALPINA''\<rparr>,
          \<lparr>code = asc ''CODIGO'', name = asc ''NOMBRE'', unit = [], price = 0,
            brand = asc ''ALPINA''\<rparr>] \<and>
   (case main latin1_only [alpina, lecheria] of
      Inl e \<Rightarrow> []
    | Inr cat \<Rightarrow> map price (products cat)) = [0, - 1200, 4500] \<and>
   clean_price latin1_only (PyInt (- 1200)) < 0"
  by (simp add: alpina_items samples_main sample_catalog_def clean_price_def)

text \<open>
  Claim C5, amended. A price is the cell's own value when the cell holds a number, and
  it is not negative in every other case: 0.0 when there is no price column, when the
  cell is missing and when its text does not parse. So a record has a negative price
  only when its price cell holds a negative number, and a catalog built from frames
  without negative numbers has no negative price.
\<close>

theorem price_sign:
  "(is_number v \<longrightarrow> clean_price U v = float_of v) \<and>
   (\<not> is_number v \<longrightarrow> 0 \<le> clean_price U v) \<and>
   (\<not> is_number v \<and> float_of_str U (commas_to_periods (price_chars U (py_str v))) = None \<longrightarrow>
      clean_price U v = 0) \<and>
   (process_row U cols m b row = Inr (Some p) \<and> price p < 0 \<longrightarrow>
      (\<exists>w. row_get cols row (price_col m) = Scalar w \<and> is_number w \<and> float_of w = price p)) \<and>
   (process_row U cols m b row = Inr (Some p) \<and>
      (price_col m = None \<or> row_get cols row (price_col m) = Scalar NA) \<longrightarrow> price p = 0) \<and>
   (main U excel_files = Inr cat \<and>
      (\<forall>f \<in> set excel_files. \<forall>h df. read_header f h = Some df \<longrightarrow>
         (\<forall>r \<in> set (rows df). \<forall>x \<in> set r. is_number x \<longrightarrow> 0 \<le> float_of x)) \<longrightarrow>
      (\<forall>q \<in> set (products cat). 0 \<le> price q))"
proof (intro conjI impI)
  show "clean_price U v = float_of v" if "is_number v"
    using that by (rule clean_price_number)
  show "0 \<le> clean_price U v" if "\<not> is_number v"
    using that by (rule clean_price_nonneg)
  show "clean_price U v = 0"
    if "\<not> is_number v \<and> float_of_str U (commas_to_periods (price_chars U (py_str v))) = None"
    using that by (simp add: clean_price_def)
  show "\<exists>w. row_get cols row (price_col m) = Scalar w \<and> is_number w \<and> float_of w = price p"
    if "process_row U cols m b row = Inr (Some p) \<and> price p < 0"
    using that process_row_negative by blast
  show "price p = 0"
    if h: "process_row U cols m b row = Inr (Some p) \<and>
      (price_col m = None \<or> row_get cols row (price_col m) = Scalar NA)"
  proof -
    from h process_row_price [of U cols m b row p]
    consider "price p = 0" | "price p = clean_price U NA"
      by (cases "price_col m") auto
    then show ?thesis by cases (simp_all add: clean_price_def)
  qed
  show "\<forall>q \<in> set (products cat). 0 \<le> price q"
    if h: "main U excel_files = Inr cat \<and>
      (\<forall>f \<in> set excel_files. \<forall>h df. read_header f h = Some df \<longrightarrow>
         (\<forall>r \<in> set (rows df). \<forall>x \<in> set r. is_number x \<longrightarrow> 0 \<le> float_of x))"
  proof -
    have "\<forall>q \<in> set (products cat). 0 \<le> price (item.truncate q)"
      using main_inv [of "\<lambda>r. \<forall>x \<in> set r. is_number x \<longrightarrow> 0 \<le> float_of x" U
          "\<lambda>p. 0 \<le> price p" excel_files cat]
        process_row_nonneg h
      by blast
    then show ?thesis by (simp add: truncate_fields)
  qed
qed

theorem price_sign_witness:
  "is_number (PyInt (- 1200)) \<and> clean_price latin1_only (PyInt (- 1200)) = - 1200 \<and>
   \<not> is_number (PyStr (asc ''-1200'')) \<and> 0 \<le> clean_price latin1_only (PyStr (asc ''-1200'')) \<and>
   (\<exists>cat. main latin1_only [lecheria] = Inr cat \<and>
      list_all (\<lambda>r. list_all (\<lambda>x. is_number x \<longrightarrow> 0 \<le> float_of x) r)
        [[PyStr (asc ''001''), PyStr (asc ''LECHE ENTERA''), PyStr (asc ''LT''), PyInt 4500]] \<and>
      list_all (\<lambda>q. 0 \<le> price q) (products cat))"
proof -
  have a: "clean_price latin1_only (PyInt (- 1200)) = - 1200"
    using price_sign [of "PyInt (- 1200)" latin1_only] by simp
  have b: "0 \<le> clean_price latin1_only (PyStr (asc ''-1200''))"
    using price_sign [of "PyStr (asc ''-1200'')" latin1_only] by simp
  have "\<exists>ps bs. files_loop latin1_only [lecheria] [] {} = Inr (ps, bs)"
    by (simp add: lecheria_items)
  then obtain cat where cat: "main latin1_only [lecheria] = Inr cat"
    by (auto simp: main_def Let_def)
  have rows_ok: "\<forall>f \<in> set [lecheria]. \<forall>h df. read_header f h = Some df \<longrightarrow>
         (\<forall>r \<in> set (rows df). \<forall>x \<in> set r. is_number x \<longrightarrow> 0 \<le> float_of x)"
    by (auto simp: lecheria_def split: if_splits)
  have c: "\<forall>q \<in> set (products cat). 0 \<le> price q"
    using price_sign [of _ latin1_only _ _ _ _ _ "[lecheria]" cat] cat rows_ok by blast
  have d: "list_all (\<lambda>r. list_all (\<lambda>x. is_number x \<longrightarrow> 0 \<le> float_of x) r)
        [[PyStr (asc ''001''), PyStr (asc ''LECHE ENTERA''), PyStr (asc ''LT''), PyInt 4500]]"
    by simp
  show ?thesis using a b cat c d by (auto simp: list_all_iff)
qed

section \<open>The catalog\<close>

lemma files_loop_brands:
  assumes "files_loop U fs acc bs = Inr (ps, bs')" "bs = set (map brand acc)"
  shows "bs' = set (map brand ps)"
  using assms
proof (induction fs arbitrary: acc bs)
  case Nil
  then show ?case by auto
next
  case (Cons f fs)
  show ?case
  proof (cases "process_excel_file U f")
    case (Inl e)
    with Cons.prems show ?thesis by simp
  next
    case (Inr items)
    let ?ps = "map (with_category U) items"
    have "files_loop U fs (acc @ ?ps) (bs \<union> set (map brand ?ps)) = Inr (ps, bs')"
      using Cons.prems(1) Inr by (simp add: Let_def image_image)
    moreover have "bs \<union> set (map brand ?ps) = set (map brand (acc @ ?ps))"
      using Cons.prems(2) by simp
    ultimately show ?thesis by (rule Cons.IH)
  qed
qed

text \<open>
  Claim C3. In the catalog of every run the products are sorted in ascending order of
  the pair (brand, name), strings being compared code point by code point, the total is
  the number of products, and the brands and the categories are the sorted lists of the
  distinct brands and categories of the products.
\<close>

theorem catalog_invariants:
  "main U excel_files = Inr cat \<longrightarrow>
     sorted (map (\<lambda>x. (brand x, name x)) (products cat)) \<and>
     total_products cat = length (products cat) \<and>
     brands cat = sorted_list_of_set (set (map brand (products cat))) \<and>
     categories cat = sorted_list_of_set (set (map category (products cat))) \<and>
     sorted (brands cat) \<and> distinct (brands cat) \<and>
     set (brands cat) = set (map brand (products cat)) \<and>
     sorted (categories cat) \<and> distinct (categories cat) \<and>
     set (categories cat) = set (map category (products cat))"
proof
  assume m: "main U excel_files = Inr cat"
  then obtain ps bs where fl: "files_loop U excel_files [] {} = Inr (ps, bs)"
    by (cases "files_loop U excel_files [] {}") (auto simp: main_def)
  have bs: "bs = set (map brand ps)"
    using files_loop_brands [OF fl] by simp
  have cat: "cat = \<lparr>products = sort_key (\<lambda>x. (brand x, name x)) ps,
                   brands = sorted_list_of_set bs,
                   categories = sorted_list_of_set
                     (set (map category (sort_key (\<lambda>x. (brand x, name x)) ps))),
                   total_products = length (sort_key (\<lambda>x. (brand x, name x)) ps)\<rparr>"
    using m fl by (simp add: main_def Let_def)
  have 1: "sorted (map (\<lambda>x. (brand x, name x)) (products cat))"
    by (simp add: cat)
  have 2: "total_products cat = length (products cat)"
    by (simp add: cat)
  have 3: "brands cat = sorted_list_of_set (set (map brand (products cat)))"
    by (simp add: cat bs)
  have 4: "categories cat = sorted_list_of_set (set (map category (products cat)))"
    by (simp add: cat)
  show "sorted (map (\<lambda>x. (brand x, name x)) (products cat)) \<and>
     total_products cat = length (products cat) \<and>
     brands cat = sorted_list_of_set (set (map brand (products cat))) \<and>
     categories cat = sorted_list_of_set (set (map category (products cat))) \<and>
     sorted (brands cat) \<and> distinct (brands cat) \<and>
     set (brands cat) = set (map brand (products cat)) \<and>
     sorted (categories cat) \<and> distinct (categories cat) \<and>
     set (categories cat) = set (map category (products cat))"
    unfolding 3 4 using 1 2 by simp
qed

theorem catalog_invariants_witness:
  "main latin1_only [alpina, lecheria] = Inr sample_catalog \<and>
   sorted (map (\<lambda>x. (brand x, name x)) (products sample_catalog)) \<and>
   total_products sample_catalog = length (products sample_catalog) \<and>
   brands sample_catalog = sorted_list_of_set (set (map brand (products sample_catalog))) \<and>
   categories sample_catalog
     = sorted_list_of_set (set (map category (products sample_catalog))) \<and>
   map (\<lambda>x. (brand x, name x)) (products sample_catalog) =
     [(asc ''ALPINA'', asc ''NOMBRE''), (asc ''ALPINA'', asc ''Yogurt fresa''),
      (asc ''LECHERIA'', asc ''LECHE ENTERA'')] \<and>
   total_products sample_catalog = 3"
proof -
  have m: "main latin1_only [alpina, lecheria] = Inr sample_catalog"
    by (rule samples_main)
  have k: "map (\<lambda>x. (brand x, name x)) (products sample_catalog) =
     [(asc ''ALPINA'', asc ''NOMBRE''), (asc ''ALPINA'', asc ''Yogurt fresa''),
      (asc ''LECHERIA'', asc ''LECHE ENTERA'')]" "total_products sample_catalog = 3"
    by (simp_all add: sample_catalog_def)
  show ?thesis
    using catalog_invariants [of latin1_only "[alpina, lecheria]" sample_catalog] m k
    by blast
qed

end
